theory Spec2Isabelle
  imports Complex_Main "HOL-Library.Log_Nat"
begin

section \<open>Python floats\<close>

text \<open>
  Every number the tile pipeline of \<^verbatim>\<open>main.py\<close> computes with is a Python \<^verbatim>\<open>float\<close>, an
  IEEE 754 binary64 value. Every finite binary64 value is an integer multiple of
  \<open>2\<^sup>-\<^sup>1\<^sup>0\<^sup>7\<^sup>4\<close>, the smallest subnormal, so \<open>Fin k\<close> stands for the double of value
  \<open>k * 2\<^sup>-\<^sup>1\<^sup>0\<^sup>7\<^sup>4\<close>. The two zeros are identified: they compare equal in Python and no
  operation used by the source tells them apart (division by either raises).
\<close>

datatype pyfloat = Fin int | PInf | NInf | NaN

text \<open>
  \<open>round_ratio p q\<close> is the double nearest to \<open>p / q\<close> (in units of \<open>2\<^sup>-\<^sup>1\<^sup>0\<^sup>7\<^sup>4\<close>, for
  \<open>q > 0\<close>), ties to the even significand: below \<open>2\<^sup>5\<^sup>3\<close> units the doubles are the
  integers, above they keep 53 significant bits; a result of \<open>2\<^sup>1\<^sup>0\<^sup>2\<^sup>4\<close> or more
  (\<open>2\<^sup>2\<^sup>0\<^sup>9\<^sup>8\<close> units) overflows to an infinity.
\<close>

definition round_ratio :: "int \<Rightarrow> int \<Rightarrow> pyfloat" where
  "round_ratio p q =
     (let a = \<bar>p\<bar>;
          s = nat (bitlen (a div q) - 53);
          d = q * 2 ^ s;
          m = a div d;
          r = a mod d;
          m' = (if 2 * r < d then m else if d < 2 * r then m + 1
                else if even m then m else m + 1);
          k = m' * 2 ^ s
      in if 2 ^ 2098 \<le> k then (if 0 < p then PInf else NInf)
         else Fin (if 0 \<le> p then k else - k))"

text \<open>\<open>dbl m e\<close> is the double of value \<open>m * 2\<^sup>e\<close> (for \<open>e \<ge> -1074\<close>): \<open>dbl 4096 0\<close> is 4096.0.\<close>

definition dbl :: "int \<Rightarrow> int \<Rightarrow> pyfloat" where
  "dbl m e = Fin (m * 2 ^ nat (e + 1074))"

text \<open>The exceptions the model distinguishes; \<open>LibraryError\<close> is any exception raised
  inside one of the external libraries (GEOS, fiona, the tile encoder).
  \<open>ConfigurationError\<close> is the failure the specification names for a degenerate box;
  nothing in \<^verbatim>\<open>main.py\<close> defines or raises it.\<close>

datatype error =
    OverflowError
  | ZeroDivisionError
  | AttributeError
  | LibraryError string
  | HTTPException nat string
  | ConfigurationError

definition and_then :: "error + 'a \<Rightarrow> ('a \<Rightarrow> error + 'b) \<Rightarrow> error + 'b" where
  "and_then r f = (case r of Inl e \<Rightarrow> Inl e | Inr v \<Rightarrow> f v)"

fun is_finite :: "pyfloat \<Rightarrow> bool" where
  "is_finite (Fin k) = True"
| "is_finite _ = False"

text \<open>Python's \<^verbatim>\<open>a - b\<close> and \<^verbatim>\<open>a * b\<close> on floats never raise.\<close>

fun float_sub :: "pyfloat \<Rightarrow> pyfloat \<Rightarrow> pyfloat" where
  "float_sub (Fin x) (Fin y) = round_ratio (x - y) 1"
| "float_sub NaN _ = NaN"
| "float_sub _ NaN = NaN"
| "float_sub PInf PInf = NaN"
| "float_sub NInf NInf = NaN"
| "float_sub PInf _ = PInf"
| "float_sub NInf _ = NInf"
| "float_sub _ PInf = NInf"
| "float_sub _ NInf = PInf"

fun float_sign :: "pyfloat \<Rightarrow> int" where
  "float_sign (Fin x) = sgn x"
| "float_sign PInf = 1"
| "float_sign NInf = - 1"
| "float_sign NaN = 0"

definition signed_inf :: "int \<Rightarrow> pyfloat" where
  "signed_inf s = (if s = 0 then NaN else if 0 < s then PInf else NInf)"

fun float_mul :: "pyfloat \<Rightarrow> pyfloat \<Rightarrow> pyfloat" where
  "float_mul (Fin x) (Fin y) = round_ratio (x * y) (2 ^ 1074)"
| "float_mul NaN _ = NaN"
| "float_mul _ NaN = NaN"
| "float_mul a b = signed_inf (float_sign a * float_sign b)"

text \<open>Python's \<^verbatim>\<open>a / b\<close> on floats raises \<^verbatim>\<open>ZeroDivisionError\<close> when \<^verbatim>\<open>b == 0.0\<close> (whatever
  \<^verbatim>\<open>a\<close> is) and is the IEEE quotient otherwise.\<close>

fun float_div :: "pyfloat \<Rightarrow> pyfloat \<Rightarrow> error + pyfloat" where
  "float_div a (Fin y) =
     (if y = 0 then Inl ZeroDivisionError
      else case a of
        Fin x \<Rightarrow> Inr (if 0 < y then round_ratio (x * 2 ^ 1074) y
                          else round_ratio (- x * 2 ^ 1074) (- y))
      | NaN \<Rightarrow> Inr NaN
      | _ \<Rightarrow> Inr (signed_inf (float_sign a * sgn y)))"
| "float_div NaN _ = Inr NaN"
| "float_div _ NaN = Inr NaN"
| "float_div (Fin x) _ = Inr (Fin 0)"
| "float_div _ _ = Inr NaN"

text \<open>An \<^verbatim>\<open>int\<close> operand of a float operation is converted first, correctly rounded;
  the conversion raises \<^verbatim>\<open>OverflowError\<close> when the integer is too large for a float.\<close>

definition float_of_int :: "int \<Rightarrow> error + pyfloat" where
  "float_of_int i =
     (let r = round_ratio (i * 2 ^ 1074) 1
      in if is_finite r then Inr r else Inl OverflowError)"

text \<open>\<^verbatim>\<open>2.0 ** z\<close> for an \<^verbatim>\<open>int\<close> \<^verbatim>\<open>z\<close>: the exponent is converted to a float, the power of two
  is exact where it is a double, an overflow raises \<^verbatim>\<open>OverflowError\<close> and an underflow
  is 0.0.\<close>

definition float_pow2 :: "int \<Rightarrow> error + pyfloat" where
  "float_pow2 z =
     and_then (float_of_int z) (\<lambda>_.
       if 1024 \<le> z then Inl OverflowError
       else if z < - 1074 then Inr (Fin 0)
       else Inr (Fin (2 ^ nat (z + 1074))))"

text \<open>Python's \<^verbatim>\<open><\<close> on floats: false whenever an operand is a NaN.\<close>

fun float_lt :: "pyfloat \<Rightarrow> pyfloat \<Rightarrow> bool" where
  "float_lt (Fin x) (Fin y) = (x < y)"
| "float_lt NaN _ = False"
| "float_lt _ NaN = False"
| "float_lt NInf NInf = False"
| "float_lt NInf _ = True"
| "float_lt _ NInf = False"
| "float_lt PInf _ = False"
| "float_lt _ PInf = True"

definition float_le :: "pyfloat \<Rightarrow> pyfloat \<Rightarrow> bool" where
  "float_le a b = (a \<noteq> NaN \<and> b \<noteq> NaN \<and> \<not> float_lt b a)"

text \<open>\<^verbatim>\<open>math.pi\<close>, and \<^verbatim>\<open>math.degrees(x)\<close>, which CPython computes as \<^verbatim>\<open>x * (180.0 / pi)\<close>
  with the constant \<^verbatim>\<open>180.0 / pi = 57.29577951308232\<close>.\<close>

definition math_pi :: pyfloat where
  "math_pi = dbl 884279719003555 (- 48)"

definition rad_to_deg :: pyfloat where
  "rad_to_deg = dbl 1007958012753983 (- 44)"

definition math_degrees :: "pyfloat \<Rightarrow> pyfloat" where
  "math_degrees x = float_mul x rad_to_deg"

section \<open>Geometries\<close>

text \<open>
  A shapely geometry: a point (possibly empty), a line string, a polygon (its shell and
  its holes, each a ring of coordinates) or a collection of geometries. Coordinates are
  pairs of floats, as the two-argument \<^verbatim>\<open>affine_transform_func(x, y)\<close> of the source takes
  them. The GeoJSON-like mapping of a geometry (what fiona yields and what
  \<^verbatim>\<open>mapping()\<close> returns) carries the same type tag and the same nested coordinates, so the
  model uses one type for both.
\<close>

type_synonym coord = "pyfloat \<times> pyfloat"

datatype collection_kind = MultiPoint | MultiLineString | MultiPolygon | GeometryCollection

datatype geometry =
    Point "coord option"
  | LineString "coord list"
  | Polygon "coord list" "coord list list"
  | Collection collection_kind "geometry list"

fun coords_of :: "geometry \<Rightarrow> coord list" where
  "coords_of (Point None) = []"
| "coords_of (Point (Some c)) = [c]"
| "coords_of (LineString cs) = cs"
| "coords_of (Polygon shell holes) = shell @ concat holes"
| "coords_of (Collection k gs) = concat (map coords_of gs)"

text \<open>\<^verbatim>\<open>geom.is_empty\<close>: the geometry has no coordinate at all.\<close>

definition is_empty :: "geometry \<Rightarrow> bool" where
  "is_empty g = (coords_of g = [])"

text \<open>\<^verbatim>\<open>shapely.ops.transform(func, geom)\<close>: the same structure with \<^verbatim>\<open>func\<close> applied to every
  coordinate. (With the source's scalar \<^verbatim>\<open>affine_transform_func\<close> the vectorised first
  attempt raises \<^verbatim>\<open>TypeError\<close> inside shapely, which then applies it coordinate by
  coordinate.)\<close>

fun transform :: "(coord \<Rightarrow> coord) \<Rightarrow> geometry \<Rightarrow> geometry" where
  "transform f (Point c) = Point (map_option f c)"
| "transform f (LineString cs) = LineString (map f cs)"
| "transform f (Polygon shell holes) = Polygon (map f shell) (map (map f) holes)"
| "transform f (Collection k gs) = Collection k (map (transform f) gs)"

text \<open>\<^verbatim>\<open>shapely.geometry.box(minx, miny, maxx, maxy)\<close>: the counter-clockwise rectangle,
  starting and ending at \<^verbatim>\<open>(maxx, miny)\<close>.\<close>

definition box :: "pyfloat \<Rightarrow> pyfloat \<Rightarrow> pyfloat \<Rightarrow> pyfloat \<Rightarrow> geometry" where
  "box minx miny maxx maxy =
     Polygon [(maxx, miny), (maxx, maxy), (minx, maxy), (minx, miny), (maxx, miny)] []"

text \<open>\<^verbatim>\<open>geom.bounds\<close>: the envelope \<^verbatim>\<open>(minx, miny, maxx, maxy)\<close> of the coordinates (of the
  shell, for a polygon), grown from the first coordinate by comparisons; four NaNs for an
  empty geometry.\<close>

fun envelope_coords :: "geometry \<Rightarrow> coord list" where
  "envelope_coords (Polygon shell holes) = shell"
| "envelope_coords (Collection k gs) = concat (map envelope_coords gs)"
| "envelope_coords g = coords_of g"

definition float_min :: "pyfloat \<Rightarrow> pyfloat \<Rightarrow> pyfloat" where
  "float_min x acc = (if float_lt x acc then x else acc)"

definition float_max :: "pyfloat \<Rightarrow> pyfloat \<Rightarrow> pyfloat" where
  "float_max x acc = (if float_lt acc x then x else acc)"

definition bounds :: "geometry \<Rightarrow> pyfloat \<times> pyfloat \<times> pyfloat \<times> pyfloat" where
  "bounds g =
     (case envelope_coords g of
        [] \<Rightarrow> (NaN, NaN, NaN, NaN)
      | c # cs \<Rightarrow>
          (fold float_min (map fst cs) (fst c), fold float_min (map snd cs) (snd c),
           fold float_max (map fst cs) (fst c), fold float_max (map snd cs) (snd c)))"

section \<open>The external libraries\<close>

text \<open>
  Feature dictionaries (keys \<^verbatim>\<open>geometry\<close> and \<^verbatim>\<open>properties\<close>), the opened fiona collection
  (its \<^verbatim>\<open>name\<close> and the features it iterates over) and the layer dictionaries handed to
  the encoder (keys \<^verbatim>\<open>name\<close> and \<^verbatim>\<open>features\<close>). A source feature's geometry is \<^verbatim>\<open>None\<close> for
  a record without a shape.
\<close>

datatype pyvalue = PyNone | PyStr string | PyInt int | PyFloat pyfloat | PyBool bool

type_synonym attributes = "(string \<times> pyvalue) list"

record 'g feature =
  geometry :: 'g
  properties :: attributes

record collection =
  src_name :: "string option"
  src_features :: "geometry option feature list"

record layer =
  name :: string
  features :: "geometry feature list"

text \<open>
  What the source calls and does not define: \<^verbatim>\<open>math.sinh\<close> (raises \<^verbatim>\<open>OverflowError\<close> on a
  range error) and \<^verbatim>\<open>math.atan\<close>; pyproj's transformer from EPSG:4326 to EPSG:3857, one
  coordinate at a time (with its default \<^verbatim>\<open>errcheck=False\<close> a failed coordinate comes
  back as infinities, nothing is raised); shapely's \<^verbatim>\<open>shape\<close> on a GeoJSON-like mapping and
  the GEOS predicates \<^verbatim>\<open>intersects\<close> and \<^verbatim>\<open>intersection\<close>, each of which may raise;
  \<^verbatim>\<open>fiona.open\<close>; and \<^verbatim>\<open>mapbox_vector_tile.encode\<close>. They are parameters of the model.
\<close>

record libs =
  math_sinh :: "pyfloat \<Rightarrow> error + pyfloat"
  math_atan :: "pyfloat \<Rightarrow> pyfloat"
  transformer_to_3857 :: "coord \<Rightarrow> coord"
  shapely_shape :: "geometry \<Rightarrow> error + geometry"
  geos_intersects :: "geometry \<Rightarrow> geometry \<Rightarrow> error + bool"
  geos_intersection :: "geometry \<Rightarrow> geometry \<Rightarrow> error + geometry"
  fiona_open :: "string \<Rightarrow> error + collection"
  mvt_encode :: "layer list \<Rightarrow> error + string"

text \<open>\<^verbatim>\<open>shape(feat['geometry'])\<close>: on \<^verbatim>\<open>None\<close> shapely's \<^verbatim>\<open>ob.get("type")\<close> raises
  \<^verbatim>\<open>AttributeError\<close>.\<close>

definition shape :: "libs \<Rightarrow> geometry option \<Rightarrow> error + geometry" where
  "shape L g = (case g of None \<Rightarrow> Inl AttributeError | Some j \<Rightarrow> shapely_shape L j)"

definition mapping :: "geometry \<Rightarrow> geometry" where
  "mapping g = g"

section \<open>The tile pipeline of main.py\<close>

definition TILE_EXTENT :: int where
  "TILE_EXTENT = 4096"

definition SHAPEFILE_PATH :: string where
  "SHAPEFILE_PATH = ''shp/test_shp.shp''"

text \<open>The nested \<^verbatim>\<open>lat_deg_from_tile(y, z)\<close> of \<^verbatim>\<open>tile_to_bbox\<close>; it reads \<^verbatim>\<open>n\<close> from the
  enclosing call and ignores its \<^verbatim>\<open>z\<close>. \<open>sinh_arg n y\<close> is the argument
  \<^verbatim>\<open>math.pi * (1 - 2 * y / n)\<close> it passes to \<^verbatim>\<open>math.sinh\<close>: \<^verbatim>\<open>2 * y\<close> is a product of integers and
  the literal \<^verbatim>\<open>1\<close> is converted to 1.0 for the subtraction.\<close>

definition sinh_arg :: "pyfloat \<Rightarrow> int \<Rightarrow> error + pyfloat" where
  "sinh_arg n y =
     and_then (float_of_int (2 * y)) (\<lambda>y2.
     and_then (float_div y2 n) (\<lambda>q.
     Inr (float_mul math_pi (float_sub (dbl 1 0) q))))"

definition lat_deg_from_tile :: "libs \<Rightarrow> pyfloat \<Rightarrow> int \<Rightarrow> error + pyfloat" where
  "lat_deg_from_tile L n y =
     and_then (sinh_arg n y) (\<lambda>a.
     and_then (math_sinh L a) (\<lambda>s.
     let lat_rad = math_atan L s in Inr (math_degrees lat_rad)))"

definition tile_to_bbox :: "libs \<Rightarrow> int \<Rightarrow> int \<Rightarrow> int \<Rightarrow> error + geometry" where
  "tile_to_bbox L z x y =
     and_then (float_pow2 z) (\<lambda>n.
     and_then (float_of_int x) (\<lambda>xf.
     and_then (float_div xf n) (\<lambda>ql.
     let lon_deg_left = float_sub (float_mul ql (dbl 360 0)) (dbl 180 0) in
     and_then (float_of_int (x + 1)) (\<lambda>x1f.
     and_then (float_div x1f n) (\<lambda>qr.
     let lon_deg_right = float_sub (float_mul qr (dbl 360 0)) (dbl 180 0) in
     and_then (lat_deg_from_tile L n y) (\<lambda>lat_deg_top.
     and_then (lat_deg_from_tile L n (y + 1)) (\<lambda>lat_deg_bottom.
     let bbox_lonlat = box lon_deg_left lat_deg_bottom lon_deg_right lat_deg_top;
         bbox_mercator = transform (transformer_to_3857 L) bbox_lonlat
     in Inr bbox_mercator)))))))"

text \<open>The nested \<^verbatim>\<open>affine_transform_func(x, y)\<close> of \<^verbatim>\<open>geometry_to_tile_coords\<close>, with the
  values it reads from the enclosing call made explicit.\<close>

definition affine_transform_func ::
    "pyfloat \<Rightarrow> pyfloat \<Rightarrow> pyfloat \<Rightarrow> pyfloat \<Rightarrow> coord \<Rightarrow> coord" where
  "affine_transform_func minx maxy scale_x scale_y c =
     (let tx = float_mul (float_sub (fst c) minx) scale_x;
          ty = float_mul (float_sub maxy (snd c)) scale_y
      in (tx, ty))"

definition geometry_to_tile_coords :: "geometry \<Rightarrow> geometry \<Rightarrow> error + geometry" where
  "geometry_to_tile_coords geom bbox =
     (case bounds bbox of (minx, miny, maxx, maxy) \<Rightarrow>
        and_then (float_of_int TILE_EXTENT) (\<lambda>ext.
        and_then (float_div ext (float_sub maxx minx)) (\<lambda>scale_x.
        and_then (float_div ext (float_sub maxy miny)) (\<lambda>scale_y.
        let transformed_geom = transform (affine_transform_func minx maxy scale_x scale_y) geom
        in Inr transformed_geom))))"

text \<open>The body of the loop of \<^verbatim>\<open>create_pbf_tile\<close> for one feature: an exception (\<open>Inl\<close>),
  a \<^verbatim>\<open>continue\<close> (\<open>Inr None\<close>) or the dictionary appended to \<^verbatim>\<open>features\<close>.\<close>

definition tile_feature ::
    "libs \<Rightarrow> geometry \<Rightarrow> geometry option feature \<Rightarrow> error + geometry feature option" where
  "tile_feature L tile_bbox feat =
     and_then (shape L (geometry feat)) (\<lambda>geom.
     let geom_3857 = transform (transformer_to_3857 L) geom in
     and_then (geos_intersects L geom_3857 tile_bbox) (\<lambda>hit.
     if \<not> hit then Inr None
     else and_then (geos_intersection L geom_3857 tile_bbox) (\<lambda>clipped_geom.
     if is_empty clipped_geom then Inr None
     else and_then (geometry_to_tile_coords clipped_geom tile_bbox) (\<lambda>tile_geom.
     let tile_geom_geojson = mapping tile_geom
     in Inr (Some \<lparr>geometry = tile_geom_geojson, properties = properties feat\<rparr>)))))"

text \<open>The loop \<^verbatim>\<open>for feat in src\<close>, with the list \<^verbatim>\<open>features\<close> built so far.\<close>

fun collect_features ::
    "libs \<Rightarrow> geometry \<Rightarrow> geometry option feature list \<Rightarrow> geometry feature list
      \<Rightarrow> error + geometry feature list" where
  "collect_features L tile_bbox [] acc = Inr acc"
| "collect_features L tile_bbox (feat # rest) acc =
     (case tile_feature L tile_bbox feat of
        Inl e \<Rightarrow> Inl e
      | Inr None \<Rightarrow> collect_features L tile_bbox rest acc
      | Inr (Some f) \<Rightarrow> collect_features L tile_bbox rest (acc @ [f]))"

text \<open>\<^verbatim>\<open>src.name or 'layer'\<close>: the name, unless it is \<^verbatim>\<open>None\<close> or the empty string.\<close>

definition layer_name_of :: "collection \<Rightarrow> string" where
  "layer_name_of src =
     (case src_name src of None \<Rightarrow> ''layer'' | Some s \<Rightarrow> if s = [] then ''layer'' else s)"

text \<open>\<^verbatim>\<open>create_pbf_tile\<close> up to the list \<^verbatim>\<open>layers\<close> it hands to the encoder, and the whole
  function: \<open>Inr None\<close> is the return value \<^verbatim>\<open>None\<close>.\<close>

definition tile_layers :: "libs \<Rightarrow> string \<Rightarrow> int \<Rightarrow> int \<Rightarrow> int \<Rightarrow> error + layer list" where
  "tile_layers L shapefile_path z x y =
     and_then (tile_to_bbox L z x y) (\<lambda>tile_bbox.
     and_then (fiona_open L shapefile_path) (\<lambda>src.
     let layer_name = layer_name_of src in
     and_then (collect_features L tile_bbox (src_features src) []) (\<lambda>fs.
     Inr (if fs \<noteq> [] then [\<lparr>name = layer_name, features = fs\<rparr>] else []))))"

definition create_pbf_tile ::
    "libs \<Rightarrow> string \<Rightarrow> int \<Rightarrow> int \<Rightarrow> int \<Rightarrow> error + string option" where
  "create_pbf_tile L shapefile_path z x y =
     and_then (tile_layers L shapefile_path z x y) (\<lambda>layers.
     if layers = [] then Inr None
     else and_then (mvt_encode L layers) (\<lambda>pbf_tile. Inr (Some pbf_tile)))"

text \<open>The decimal text of an integer, as an f-string prints it.\<close>

fun str_nat :: "nat \<Rightarrow> string" where
  "str_nat n = (if n < 10 then [char_of (48 + n)] else str_nat (n div 10) @ [char_of (48 + n mod 10)])"

definition str_int :: "int \<Rightarrow> string" where
  "str_int i = (if i < 0 then ''-'' @ str_nat (nat (- i)) else str_nat (nat i))"

text \<open>The handler \<^verbatim>\<open>serve_pbf_tile\<close>: it raises \<^verbatim>\<open>HTTPException(204)\<close> for \<^verbatim>\<open>None\<close> and otherwise
  returns the streaming response (its content, media type and Content-Disposition).\<close>

datatype response = StreamingResponse string string string

definition serve_pbf_tile :: "libs \<Rightarrow> int \<Rightarrow> int \<Rightarrow> int \<Rightarrow> error + response" where
  "serve_pbf_tile L z x y =
     and_then (create_pbf_tile L SHAPEFILE_PATH z x y) (\<lambda>pbf_tile.
     case pbf_tile of
       None \<Rightarrow> Inl (HTTPException 204 ''No Content'')
     | Some b \<Rightarrow>
         Inr (StreamingResponse b ''application/vnd.mapbox-vector-tile''
               (''inline; filename=tile_'' @ str_int z @ ''_'' @ str_int x @ ''_'' @ str_int y
                 @ ''.pbf'')))"

section \<open>The specification's components\<close>

text \<open>
  The Tile Geometry Calculator as the specification words it: \<open>n = 2^zoom\<close> in floating
  point, the longitude of a column, the latitude of a row, the geographic rectangle
  \<open>(lon_left, lat_bottom, lon_right, lat_top)\<close>, its four corners reprojected, and the
  bounding box \<open>(minX, minY, maxX, maxY)\<close> formed from the extrema of the transformed
  corners.
\<close>

definition spec_lon :: "pyfloat \<Rightarrow> int \<Rightarrow> error + pyfloat" where
  "spec_lon n c =
     and_then (float_of_int c) (\<lambda>cf.
     and_then (float_div cf n) (\<lambda>q.
     Inr (float_sub (float_mul q (dbl 360 0)) (dbl 180 0))))"

definition spec_lat :: "libs \<Rightarrow> pyfloat \<Rightarrow> int \<Rightarrow> error + pyfloat" where
  "spec_lat L n r =
     and_then (float_of_int (2 * r)) (\<lambda>r2.
     and_then (float_div r2 n) (\<lambda>q.
     and_then (math_sinh L (float_mul math_pi (float_sub (dbl 1 0) q))) (\<lambda>s.
     Inr (math_degrees (math_atan L s)))))"

definition spec_extrema :: "coord list \<Rightarrow> pyfloat \<times> pyfloat \<times> pyfloat \<times> pyfloat" where
  "spec_extrema cs =
     (fold float_min (map fst (tl cs)) (fst (hd cs)), fold float_min (map snd (tl cs)) (snd (hd cs)),
      fold float_max (map fst (tl cs)) (fst (hd cs)), fold float_max (map snd (tl cs)) (snd (hd cs)))"

definition spec_compute_bbox ::
    "libs \<Rightarrow> int \<Rightarrow> int \<Rightarrow> int \<Rightarrow> error + pyfloat \<times> pyfloat \<times> pyfloat \<times> pyfloat" where
  "spec_compute_bbox L zoom col row =
     and_then (float_pow2 zoom) (\<lambda>n.
     and_then (spec_lon n col) (\<lambda>lon_left.
     and_then (spec_lon n (col + 1)) (\<lambda>lon_right.
     and_then (spec_lat L n row) (\<lambda>lat_top.
     and_then (spec_lat L n (row + 1)) (\<lambda>lat_bottom.
     Inr (spec_extrema (map (transformer_to_3857 L)
            [(lon_right, lat_bottom), (lon_right, lat_top),
             (lon_left, lat_top), (lon_left, lat_bottom)])))))))"

text \<open>
  The Feature Projector and Clipper as the specification words it, for one feature:
  reproject, test the intersection with the box, clip, and keep the clipped geometry
  with the original attributes unless it is empty. \<open>survives\<close> holds of the features it
  keeps.
\<close>

definition spec_clip :: "libs \<Rightarrow> geometry \<Rightarrow> geometry option feature \<Rightarrow> geometry feature option" where
  "spec_clip L bbox feat =
     (case shape L (geometry feat) of
        Inl e \<Rightarrow> None
      | Inr g \<Rightarrow>
          (case geos_intersects L (transform (transformer_to_3857 L) g) bbox of
             Inl e \<Rightarrow> None
           | Inr hit \<Rightarrow>
               if \<not> hit then None
               else (case geos_intersection L (transform (transformer_to_3857 L) g) bbox of
                       Inl e \<Rightarrow> None
                     | Inr c \<Rightarrow> if is_empty c then None
                                else Some \<lparr>geometry = c, properties = properties feat\<rparr>)))"

definition survives :: "libs \<Rightarrow> geometry \<Rightarrow> geometry option feature \<Rightarrow> bool" where
  "survives L bbox feat = (spec_clip L bbox feat \<noteq> None)"

text \<open>\<open>quantized_from L bbox feat out\<close>: \<open>out\<close> is the quantized clip of \<open>feat\<close> with the
  attributes of \<open>feat\<close>.\<close>

definition quantized_from ::
    "libs \<Rightarrow> geometry \<Rightarrow> geometry option feature \<Rightarrow> geometry feature \<Rightarrow> bool" where
  "quantized_from L bbox feat out =
     (case spec_clip L bbox feat of
        None \<Rightarrow> False
      | Some c \<Rightarrow> properties out = properties feat
                  \<and> geometry_to_tile_coords (geometry c) bbox = Inr (geometry out))"

definition raises :: "error + 'a \<Rightarrow> bool" where
  "raises r = (case r of Inl e \<Rightarrow> True | Inr v \<Rightarrow> False)"

section \<open>A library instance for concrete runs\<close>

text \<open>
  A concrete instance of the external libraries, tabulated at the inputs of the tile
  0/0/0: \<^verbatim>\<open>math.sinh\<close> and \<^verbatim>\<open>math.atan\<close> at the arguments that tile needs (and \<^verbatim>\<open>math.sinh\<close> at
  \<^verbatim>\<open>1259.778654089507\<close>, where it raises its range error), the Web Mercator
  transform at a few longitudes and latitudes, GEOS on points against the rectangle, and
  three small feature sources. Off the table the instance raises (or, for the transform,
  answers infinities, as pyproj does for a coordinate it cannot transform). In decimal:
  \<^verbatim>\<open>sinh(3.141592653589793) = 11.548739357257748\<close>,
  \<^verbatim>\<open>atan(11.548739357257748) = 1.4844222297453324\<close> (85.0511287798066 degrees); longitude
  180 is at \<^verbatim>\<open>x = 20037508.342789244\<close>, the latitudes 85.0511287798066, -85.0511287798066 and
  89 are at \<^verbatim>\<open>y = 20037508.342789244\<close>, \<^verbatim>\<open>-20037508.342789255\<close> and \<^verbatim>\<open>30240971.958386205\<close>.
\<close>

definition ex_sinh :: "pyfloat \<Rightarrow> error + pyfloat" where
  "ex_sinh v =
     (if v = dbl 884279719003555 (- 48) then Inr (dbl 3250681141621561 (- 48))
      else if v = dbl (- 884279719003555) (- 48) then Inr (dbl (- 3250681141621561) (- 48))
      else if v = dbl 5540565114381649 (- 42) then Inl OverflowError
      else Inl (LibraryError ''math.sinh: not tabulated''))"

definition ex_atan :: "pyfloat \<Rightarrow> pyfloat" where
  "ex_atan v =
     (if v = dbl 3250681141621561 (- 48) then dbl 835655425092695 (- 49)
      else if v = dbl (- 3250681141621561) (- 48) then dbl (- 835655425092695) (- 49)
      else NaN)"

definition ex_merc_x :: "pyfloat \<Rightarrow> pyfloat" where
  "ex_merc_x lon =
     (if lon = dbl 0 0 then dbl 0 0
      else if lon = dbl 180 0 then dbl 5378777689100435 (- 28)
      else if lon = dbl (- 180) 0 then dbl (- 5378777689100435) (- 28)
      else PInf)"

definition ex_merc_y :: "pyfloat \<Rightarrow> pyfloat" where
  "ex_merc_y lat =
     (if lat = dbl 0 0 then dbl 0 0
      else if lat = dbl 5984941123127767 (- 46) then dbl 5378777689100435 (- 28)
      else if lat = dbl (- 5984941123127767) (- 46) then dbl (- 2689388844550219) (- 27)
      else if lat = dbl 89 0 then dbl 4058874548766307 (- 27)
      else PInf)"

definition ex_to_3857 :: "coord \<Rightarrow> coord" where
  "ex_to_3857 c = (ex_merc_x (fst c), ex_merc_y (snd c))"

definition point_in_box :: "coord \<Rightarrow> geometry \<Rightarrow> bool" where
  "point_in_box c b =
     (case bounds b of (minx, miny, maxx, maxy) \<Rightarrow>
        float_le minx (fst c) \<and> float_le (fst c) maxx
        \<and> float_le miny (snd c) \<and> float_le (snd c) maxy)"

definition ex_intersects :: "geometry \<Rightarrow> geometry \<Rightarrow> error + bool" where
  "ex_intersects g b =
     (case g of Point (Some c) \<Rightarrow> Inr (point_in_box c b)
      | _ \<Rightarrow> Inl (LibraryError ''GEOS: not tabulated''))"

definition ex_intersection :: "geometry \<Rightarrow> geometry \<Rightarrow> error + geometry" where
  "ex_intersection g b =
     (case g of Point (Some c) \<Rightarrow> Inr (if point_in_box c b then Point (Some c) else Point None)
      | _ \<Rightarrow> Inl (LibraryError ''GEOS: not tabulated''))"

definition ex_origin :: "geometry option feature" where
  "ex_origin = \<lparr>geometry = Some (Point (Some (dbl 0 0, dbl 0 0))),
                properties = [(''name'', PyStr ''origin''), (''id'', PyInt 1)]\<rparr>"

definition ex_north :: "geometry option feature" where
  "ex_north = \<lparr>geometry = Some (Point (Some (dbl 0 0, dbl 89 0))),
               properties = [(''name'', PyStr ''north''), (''id'', PyInt 2)]\<rparr>"

definition ex_corner :: "geometry option feature" where
  "ex_corner = \<lparr>geometry = Some (Point (Some (dbl (- 180) 0, dbl 5984941123127767 (- 46)))),
                properties = [(''name'', PyStr ''corner''), (''id'', PyInt 3)]\<rparr>"

definition ex_no_shape :: "geometry option feature" where
  "ex_no_shape = \<lparr>geometry = None, properties = [(''name'', PyStr ''no shape''), (''id'', PyInt 4)]\<rparr>"

definition ex_open :: "string \<Rightarrow> error + collection" where
  "ex_open path =
     (if path = ''shp/test_shp.shp''
        then Inr \<lparr>src_name = Some ''test_shp'', src_features = [ex_origin, ex_north, ex_corner]\<rparr>
      else if path = ''shp/no_shape.shp''
        then Inr \<lparr>src_name = None, src_features = [ex_origin, ex_no_shape, ex_corner]\<rparr>
      else if path = ''shp/outside.shp''
        then Inr \<lparr>src_name = Some [], src_features = [ex_north, ex_north]\<rparr>
      else Inl (LibraryError ''fiona: no such file''))"

definition ex_encode :: "layer list \<Rightarrow> error + string" where
  "ex_encode ls = Inr (concat (map name ls))"

definition ex_libs :: libs where
  "ex_libs = \<lparr>math_sinh = ex_sinh, math_atan = ex_atan, transformer_to_3857 = ex_to_3857,
               shapely_shape = Inr, geos_intersects = ex_intersects,
               geos_intersection = ex_intersection, fiona_open = ex_open,
               mvt_encode = ex_encode\<rparr>"

text \<open>The box of the tile 0/0/0 under this instance, and what the two features inside
  it quantize to.\<close>

definition ex_bbox :: geometry where
  "ex_bbox =
     Polygon [(dbl 5378777689100435 (- 28), dbl (- 2689388844550219) (- 27)),
              (dbl 5378777689100435 (- 28), dbl 5378777689100435 (- 28)),
              (dbl (- 5378777689100435) (- 28), dbl 5378777689100435 (- 28)),
              (dbl (- 5378777689100435) (- 28), dbl (- 2689388844550219) (- 27)),
              (dbl 5378777689100435 (- 28), dbl (- 2689388844550219) (- 27))] []"

definition ex_origin_tile :: "geometry feature" where
  "ex_origin_tile =
     \<lparr>geometry = Point (Some (dbl 9007199254740991 (- 42), dbl 4503599627370495 (- 41))),
      properties = [(''name'', PyStr ''origin''), (''id'', PyInt 1)]\<rparr>"

definition ex_corner_tile :: "geometry feature" where
  "ex_corner_tile =
     \<lparr>geometry = Point (Some (dbl 0 0, dbl 0 0)),
      properties = [(''name'', PyStr ''corner''), (''id'', PyInt 3)]\<rparr>"

section \<open>Computing with doubles\<close>

text \<open>
  Auxiliary functions for evaluating the float operations on doubles written \<open>dbl m e\<close>
  without expanding the unit \<open>2\<^sup>-\<^sup>1\<^sup>0\<^sup>7\<^sup>4\<close>: the shift and the significand chosen by
  \<open>round_ratio\<close>, and \<open>round_q p q e\<close>, the double nearest to \<open>(p / q) * 2\<^sup>e\<close>.
\<close>

definition round_shift :: "int \<Rightarrow> int \<Rightarrow> nat" where
  "round_shift a q = nat (bitlen (a div q) - 53)"

definition round_mant :: "int \<Rightarrow> int \<Rightarrow> int" where
  "round_mant a q =
     (let d = q * 2 ^ round_shift a q; m = a div d; r = a mod d
      in if 2 * r < d then m else if d < 2 * r then m + 1
         else if even m then m else m + 1)"

definition round_q :: "int \<Rightarrow> int \<Rightarrow> int \<Rightarrow> pyfloat" where
  "round_q p q e =
     (if 0 \<le> e + 1074 then round_ratio (p * 2 ^ nat (e + 1074)) q
      else round_ratio p (q * 2 ^ nat (- (e + 1074))))"

fun to_dbl :: "pyfloat \<Rightarrow> pyfloat" where
  "to_dbl (Fin k) = dbl k (- 1074)"
| "to_dbl x = x"

text \<open>\<open>round_value a q\<close> is the magnitude \<open>round_ratio\<close> rounds \<open>a / q\<close> to (for \<open>a \<ge> 0\<close>).\<close>

definition round_value :: "int \<Rightarrow> int \<Rightarrow> int" where
  "round_value a q = round_mant a q * 2 ^ round_shift a q"

section \<open>Properties of the rounding\<close>

lemma round_ratio_cancel:
  assumes "0 < c" "0 < q"
  shows "round_ratio (c * p) (c * q) = round_ratio p q"
proof -
  have a: "\<bar>c * p\<bar> = c * \<bar>p\<bar>" using assms by (simp add: abs_mult)
  have m: "(c * x) mod (c * y) = c * (x mod y)" for x y :: int
    by (rule mult_mod_right[symmetric])
  have s1: "0 < c * p \<longleftrightarrow> 0 < p" using assms by (simp add: zero_less_mult_iff)
  have s2: "0 \<le> c * p \<longleftrightarrow> 0 \<le> p" using assms by (simp add: zero_le_mult_iff)
  have dd: "(c * \<bar>p\<bar>) div (c * q * 2 ^ s) = \<bar>p\<bar> div (q * 2 ^ s)" for s
    using assms by (simp add: mult.assoc)
  have mm: "(c * \<bar>p\<bar>) mod (c * q * 2 ^ s) = c * (\<bar>p\<bar> mod (q * 2 ^ s))" for s
    by (simp add: mult.assoc m)
  have d0: "(c * \<bar>p\<bar>) div (c * q) = \<bar>p\<bar> div q" using assms by simp
  have l1: "2 * (c * r) < c * q * 2 ^ s \<longleftrightarrow> 2 * r < q * 2 ^ s" for r s
  proof -
    have "2 * (c * r) < c * q * 2 ^ s \<longleftrightarrow> c * (2 * r) < c * (q * 2 ^ s)"
      by (simp only: mult.assoc mult.left_commute)
    also have "\<dots> \<longleftrightarrow> 2 * r < q * 2 ^ s" using assms(1) by (rule mult_less_cancel_left_pos)
    finally show ?thesis .
  qed
  have l2: "c * q * 2 ^ s < 2 * (c * r) \<longleftrightarrow> q * 2 ^ s < 2 * r" for r s
  proof -
    have "c * q * 2 ^ s < 2 * (c * r) \<longleftrightarrow> c * (q * 2 ^ s) < c * (2 * r)"
      by (simp only: mult.assoc mult.left_commute)
    also have "\<dots> \<longleftrightarrow> q * 2 ^ s < 2 * r" using assms(1) by (rule mult_less_cancel_left_pos)
    finally show ?thesis .
  qed
  show ?thesis
    unfolding round_ratio_def Let_def a d0 dd mm s1 s2 l1 l2 ..
qed

lemma bitlen_eqI:
  assumes "0 < w" "2 ^ (nat w - 1) \<le> x" "x < 2 ^ nat w"
  shows "bitlen x = w"
proof -
  have "bitlen x \<le> w" using assms by (simp add: bitlen_le_iff_power)
  moreover have "w \<le> bitlen x" using assms by (simp add: bitlen_ge_iff_power)
  ultimately show ?thesis by simp
qed

lemma div_ge_iff:
  fixes a q k :: int
  assumes "0 < q"
  shows "k \<le> a div q \<longleftrightarrow> k * q \<le> a"
proof
  assume "k \<le> a div q"
  then have "k * q \<le> (a div q) * q" using assms by (simp add: mult_right_mono)
  also have "\<dots> \<le> a"
  proof -
    have "0 \<le> a mod q" using assms by simp
    moreover have "a div q * q + a mod q = a" by simp
    ultimately show ?thesis by linarith
  qed
  finally show "k * q \<le> a" .
next
  assume h: "k * q \<le> a"
  show "k \<le> a div q"
  proof (rule ccontr)
    assume "\<not> k \<le> a div q"
    then have "a div q + 1 \<le> k" by simp
    then have "(a div q + 1) * q \<le> k * q" using assms by (simp only: mult_right_mono less_imp_le)
    then have 1: "a div q * q + q \<le> k * q" by (simp only: distrib_right mult_1)
    have 2: "a div q * q + a mod q = a" by simp
    have 3: "a mod q < q" using assms by simp
    from 1 2 3 h show False by linarith
  qed
qed

lemma div_lt_iff:
  fixes a q k :: int
  assumes "0 < q"
  shows "a div q < k \<longleftrightarrow> a < k * q"
  using div_ge_iff[OF assms, of k a] by linarith

lemma bitlen_div_shift:
  assumes "0 < q" "1 \<le> bitlen (a div q)"
  shows "bitlen (a * 2 ^ j div q) = bitlen (a div q) + int j"
proof -
  let ?n = "bitlen (a div q)"
  have pos: "0 < a div q" using assms(2) bitlen_eq_zero_iff[of "a div q"] by linarith
  from bitlen_bounds[OF pos] have lo: "2 ^ nat (?n - 1) \<le> a div q" and hi: "a div q < 2 ^ nat ?n"
    by simp_all
  from lo have lo': "2 ^ nat (?n - 1) * q \<le> a" by (simp add: div_ge_iff[OF assms(1)])
  from hi have hi': "a < 2 ^ nat ?n * q" by (simp add: div_lt_iff[OF assms(1)])
  have e1: "nat (?n + int j) - 1 = nat (?n - 1) + j" using assms(2) by simp
  have e2: "nat (?n + int j) = nat ?n + j" using assms(2) by (simp add: nat_add_distrib)
  have "2 ^ (nat (?n + int j) - 1) * q \<le> a * 2 ^ j"
    unfolding e1 using lo' by (simp add: power_add mult.assoc mult.commute mult.left_commute)
  then have A: "2 ^ (nat (?n + int j) - 1) \<le> a * 2 ^ j div q" by (simp add: div_ge_iff[OF assms(1)])
  have "a * 2 ^ j < 2 ^ nat (?n + int j) * q"
    unfolding e2 using hi' by (simp add: power_add mult.assoc mult.commute mult.left_commute)
  then have B: "a * 2 ^ j div q < 2 ^ nat (?n + int j)" by (simp add: div_lt_iff[OF assms(1)])
  show ?thesis by (rule bitlen_eqI[OF _ A B]) (use assms(2) in simp)
qed

lemma round_ratio_alt:
  "round_ratio p q =
     (let k = round_mant \<bar>p\<bar> q * 2 ^ round_shift \<bar>p\<bar> q
      in if 2 ^ 2098 \<le> k then (if 0 < p then PInf else NInf)
         else Fin (if 0 \<le> p then k else - k))"
  by (simp add: round_ratio_def round_mant_def round_shift_def Let_def)

lemma round_shift_scale:
  assumes "0 < q" "53 \<le> bitlen (a div q)"
  shows "round_shift (a * 2 ^ j) q = round_shift a q + j"
  using assms by (simp add: round_shift_def bitlen_div_shift nat_add_distrib)

lemma round_mant_scale:
  assumes "0 < q" "53 \<le> bitlen (a div q)"
  shows "round_mant (a * 2 ^ j) q = round_mant a q"
proof -
  let ?s = "round_shift a q"
  have c: "(0::int) < 2 ^ j" by simp
  have d: "a * 2 ^ j div (q * 2 ^ (?s + j)) = a div (q * 2 ^ ?s)"
    by (simp add: power_add mult.assoc[symmetric])
  have m: "a * 2 ^ j mod (q * 2 ^ (?s + j)) = (a mod (q * 2 ^ ?s)) * 2 ^ j"
    by (simp add: power_add mult.assoc[symmetric] mult_mod_left)
  have l1: "2 * (r * 2 ^ j) < q * 2 ^ (?s + j) \<longleftrightarrow> 2 * r < q * 2 ^ ?s" for r :: int
  proof -
    have "2 * (r * 2 ^ j) < q * 2 ^ (?s + j) \<longleftrightarrow> (2 * r) * 2 ^ j < (q * 2 ^ ?s) * 2 ^ j"
      by (simp only: power_add mult.assoc)
    also have "\<dots> \<longleftrightarrow> 2 * r < q * 2 ^ ?s" using c by (rule mult_less_cancel_right_pos)
    finally show ?thesis .
  qed
  have l2: "q * 2 ^ (?s + j) < 2 * (r * 2 ^ j) \<longleftrightarrow> q * 2 ^ ?s < 2 * r" for r :: int
  proof -
    have "q * 2 ^ (?s + j) < 2 * (r * 2 ^ j) \<longleftrightarrow> (q * 2 ^ ?s) * 2 ^ j < (2 * r) * 2 ^ j"
      by (simp only: power_add mult.assoc)
    also have "\<dots> \<longleftrightarrow> q * 2 ^ ?s < 2 * r" using c by (rule mult_less_cancel_right_pos)
    finally show ?thesis .
  qed
  show ?thesis
    unfolding round_mant_def[of "a * 2 ^ j"] round_shift_scale[OF assms] Let_def d m l1 l2
    unfolding round_mant_def Let_def ..
qed

lemma round_mant_lower:
  assumes "0 < q" "53 \<le> bitlen (a div q)"
  shows "2 ^ 52 \<le> round_mant a q"
proof -
  let ?n = "bitlen (a div q)"
  let ?s = "round_shift a q"
  have pos: "0 < a div q" using assms(2) bitlen_eq_zero_iff[of "a div q"] by linarith
  from bitlen_bounds[OF pos] have "2 ^ nat (?n - 1) \<le> a div q" by simp
  then have "2 ^ nat (?n - 1) * q \<le> a" by (simp add: div_ge_iff[OF assms(1)])
  moreover have "nat (?n - 1) = 52 + ?s" using assms(2) by (simp add: round_shift_def)
  ultimately have "2 ^ 52 * (q * 2 ^ ?s) \<le> a" by (simp add: power_add mult.assoc mult.left_commute mult.commute)
  moreover have "0 < q * 2 ^ ?s" using assms(1) by simp
  ultimately have "2 ^ 52 \<le> a div (q * 2 ^ ?s)" by (simp only: div_ge_iff)
  then show ?thesis by (simp add: round_mant_def Let_def)
qed

lemma pow_le_iff_bitlen:
  assumes "0 < x"
  shows "2 ^ w \<le> x \<longleftrightarrow> int w + 1 \<le> bitlen x"
proof -
  have "nat (int w + 1) - 1 = w" by simp
  then show ?thesis using bitlen_ge_iff_power[of "int w + 1" x] by (simp del: of_nat_Suc)
qed

lemma round_q_normal:
  assumes "0 < q" "int t \<le> e + 1074" "53 \<le> bitlen (\<bar>p\<bar> * 2 ^ t div q)"
  shows "round_q p q e =
     (let a = \<bar>p\<bar> * 2 ^ t; m = round_mant a q;
          x = int (round_shift a q) + e - int t
      in if 1025 \<le> bitlen m + x then (if 0 < p then PInf else NInf)
         else dbl (if 0 \<le> p then m else - m) x)"
proof -
  define a where "a = \<bar>p\<bar> * 2 ^ t"
  define j where "j = nat (e + 1074) - t"
  define m where "m = round_mant a q"
  define s where "s = round_shift a q"
  have N: "nat (e + 1074) = t + j" using assms(2) by (simp add: j_def)
  have abs: "\<bar>p * 2 ^ (t + j)\<bar> = a * 2 ^ j" by (simp add: a_def abs_mult power_add)
  have b: "53 \<le> bitlen (a div q)" using assms(3) by (simp add: a_def)
  have mpos: "0 < m" using round_mant_lower[OF assms(1) b] unfolding m_def
    by (smt (verit) zero_less_power)
  have x: "int s + e - int t + 1074 = int (s + j)" using assms(2) by (simp add: j_def)
  have ov: "(2::int) ^ 2098 \<le> m * 2 ^ (s + j) \<longleftrightarrow> 1025 \<le> bitlen m + (int s + e - int t)"
  proof -
    have "0 < m * 2 ^ (s + j)" using mpos by simp
    then have "(2::int) ^ 2098 \<le> m * 2 ^ (s + j) \<longleftrightarrow> 2099 \<le> bitlen (m * 2 ^ (s + j))"
      using pow_le_iff_bitlen[of "m * 2 ^ (s + j)" 2098] by simp
    also have "bitlen (m * 2 ^ (s + j)) = bitlen m + int (s + j)" using mpos by simp
    finally show ?thesis using x by linarith
  qed
  have sg: "0 < p * 2 ^ (t + j) \<longleftrightarrow> 0 < p" "0 \<le> p * 2 ^ (t + j) \<longleftrightarrow> 0 \<le> p"
    by (simp_all add: zero_less_mult_iff zero_le_mult_iff)
  have "round_q p q e = round_ratio (p * 2 ^ (t + j)) q"
    using assms(2) by (simp add: round_q_def N)
  also have "\<dots> = (let k = m * 2 ^ (s + j)
      in if 2 ^ 2098 \<le> k then (if 0 < p then PInf else NInf)
         else Fin (if 0 \<le> p then k else - k))"
    unfolding round_ratio_alt abs round_mant_scale[OF assms(1) b] round_shift_scale[OF assms(1) b] sg
    by (simp add: m_def s_def)
  also have "\<dots> = (if 1025 \<le> bitlen m + (int s + e - int t) then (if 0 < p then PInf else NInf)
         else dbl (if 0 \<le> p then m else - m) (int s + e - int t))"
    unfolding Let_def ov dbl_def x nat_int by (cases "0 \<le> p") simp_all
  finally show ?thesis by (simp add: Let_def m_def s_def a_def)
qed

lemma round_q_shift_ok:
  assumes "0 < q" "p \<noteq> 0"
  shows "53 \<le> bitlen (\<bar>p\<bar> * 2 ^ nat (54 + bitlen q - bitlen \<bar>p\<bar>) div q)"
proof -
  define t where "t = nat (54 + bitlen q - bitlen \<bar>p\<bar>)"
  have ap: "0 < \<bar>p\<bar>" using assms(2) by simp
  from bitlen_bounds[OF ap] have lo: "2 ^ nat (bitlen \<bar>p\<bar> - 1) \<le> \<bar>p\<bar>" by simp
  from bitlen_bounds[OF assms(1)] have hi: "q < 2 ^ nat (bitlen q)" by simp
  have bp: "1 \<le> bitlen \<bar>p\<bar>" using ap bitlen_eq_zero_iff[of "\<bar>p\<bar>"] bitlen_nonneg[of "\<bar>p\<bar>"] by linarith
  have bq: "0 \<le> bitlen q" by (rule bitlen_nonneg)
  have ex: "52 + nat (bitlen q) \<le> nat (bitlen \<bar>p\<bar> - 1) + t" using bp bq by (simp add: t_def)
  have "(2::int) ^ 52 * q \<le> 2 ^ 52 * 2 ^ nat (bitlen q)" using hi by simp
  also have "\<dots> = 2 ^ (52 + nat (bitlen q))" by (simp add: power_add)
  also have "\<dots> \<le> 2 ^ (nat (bitlen \<bar>p\<bar> - 1) + t)" using ex by (simp only: power_increasing_iff one_less_numeral_iff semiring_norm)
  also have "\<dots> = 2 ^ nat (bitlen \<bar>p\<bar> - 1) * 2 ^ t" by (simp add: power_add)
  also have "\<dots> \<le> \<bar>p\<bar> * 2 ^ t" using lo by simp
  finally have "2 ^ 52 \<le> \<bar>p\<bar> * 2 ^ t div q" by (simp only: div_ge_iff[OF assms(1)])
  moreover have "0 < \<bar>p\<bar> * 2 ^ t div q" using calculation by (smt (verit) zero_less_power)
  ultimately show ?thesis unfolding t_def[symmetric]
    using pow_le_iff_bitlen[of "\<bar>p\<bar> * 2 ^ t div q" 52] by simp
qed

lemma to_dbl_id: "to_dbl x = x"
  by (cases x) (simp_all add: dbl_def)

lemma round_ratio_zero: "0 < q \<Longrightarrow> round_ratio 0 q = Fin 0"
  by (simp add: round_ratio_def)

lemma round_q_code:
  assumes "0 < q"
  shows "round_q p q e =
     (if p = 0 then dbl 0 0
      else let t = nat (54 + bitlen q - bitlen \<bar>p\<bar>)
           in if int t \<le> e + 1074
              then (let a = \<bar>p\<bar> * 2 ^ t; m = round_mant a q;
                        x = int (round_shift a q) + e - int t
                    in if 1025 \<le> bitlen m + x then (if 0 < p then PInf else NInf)
                       else dbl (if 0 \<le> p then m else - m) x)
              else to_dbl (if 0 \<le> e + 1074 then round_ratio (p * 2 ^ nat (e + 1074)) q
                           else round_ratio p (q * 2 ^ nat (- (e + 1074)))))"
proof (cases "p = 0")
  case True
  then show ?thesis using assms by (simp add: round_q_def round_ratio_zero dbl_def)
next
  case False
  show ?thesis
  proof (cases "int (nat (54 + bitlen q - bitlen \<bar>p\<bar>)) \<le> e + 1074")
    case True
    from round_q_normal[OF assms True round_q_shift_ok[OF assms False]] False True
    show ?thesis by (simp add: Let_def)
  next
    case t: False
    show ?thesis using False t by (simp add: Let_def to_dbl_id round_q_def)
  qed
qed

lemma float_sub_dbl:
  assumes "- 1074 \<le> e1" "- 1074 \<le> e2"
  shows "float_sub (dbl m1 e1) (dbl m2 e2) =
    round_q (m1 * 2 ^ nat (e1 - min e1 e2) - m2 * 2 ^ nat (e2 - min e1 e2)) 1 (min e1 e2)"
proof -
  define e where "e = min e1 e2"
  have e: "- 1074 \<le> e" "e \<le> e1" "e \<le> e2" using assms by (simp_all add: e_def)
  have n1: "nat (e1 + 1074) = nat (e1 - e) + nat (e + 1074)" using e by simp
  have n2: "nat (e2 + 1074) = nat (e2 - e) + nat (e + 1074)" using e by simp
  show ?thesis unfolding e_def[symmetric] using e
    by (simp add: dbl_def round_q_def n1 n2 power_add algebra_simps)
qed

lemma round_ratio_mul_pow:
  "round_ratio (m1 * 2 ^ n1 * (m2 * 2 ^ n2)) (2 ^ N) =
     (if N \<le> n1 + n2 then round_ratio (m1 * m2 * 2 ^ (n1 + n2 - N)) 1
      else round_ratio (m1 * m2) (2 ^ (N - (n1 + n2))))"
proof (cases "N \<le> n1 + n2")
  case True
  then have "n1 + n2 = N + (n1 + n2 - N)" by simp
  then have "(2::int) ^ n1 * 2 ^ n2 = 2 ^ N * 2 ^ (n1 + n2 - N)"
    by (metis power_add)
  then have E: "m1 * 2 ^ n1 * (m2 * 2 ^ n2) = 2 ^ N * (m1 * m2 * 2 ^ (n1 + n2 - N))"
    by (simp add: mult.assoc mult.left_commute)
  have "round_ratio (2 ^ N * (m1 * m2 * 2 ^ (n1 + n2 - N))) (2 ^ N * 1)
      = round_ratio (m1 * m2 * 2 ^ (n1 + n2 - N)) 1"
    by (rule round_ratio_cancel) simp_all
  then show ?thesis unfolding E using True by (simp only: mult_1_right if_True)
next
  case False
  then have "N = (n1 + n2) + (N - (n1 + n2))" by simp
  then have D: "(2::int) ^ N = 2 ^ (n1 + n2) * 2 ^ (N - (n1 + n2))"
    by (metis power_add)
  have E: "m1 * 2 ^ n1 * (m2 * 2 ^ n2) = 2 ^ (n1 + n2) * (m1 * m2)"
    by (simp add: power_add mult.assoc mult.left_commute)
  have "round_ratio (2 ^ (n1 + n2) * (m1 * m2)) (2 ^ (n1 + n2) * 2 ^ (N - (n1 + n2)))
      = round_ratio (m1 * m2) (2 ^ (N - (n1 + n2)))"
    by (rule round_ratio_cancel) simp_all
  then show ?thesis unfolding E using False D by (simp only: if_False)
qed

lemma float_mul_dbl:
  assumes "- 1074 \<le> e1" "- 1074 \<le> e2"
  shows "float_mul (dbl m1 e1) (dbl m2 e2) = round_q (m1 * m2) 1 (e1 + e2)"
proof -
  have "float_mul (dbl m1 e1) (dbl m2 e2) =
      round_ratio (m1 * 2 ^ nat (e1 + 1074) * (m2 * 2 ^ nat (e2 + 1074))) (2 ^ 1074)"
    by (simp only: dbl_def float_mul.simps)
  also have "\<dots> = (if 1074 \<le> nat (e1 + 1074) + nat (e2 + 1074)
      then round_ratio (m1 * m2 * 2 ^ (nat (e1 + 1074) + nat (e2 + 1074) - 1074)) 1
      else round_ratio (m1 * m2) (2 ^ (1074 - (nat (e1 + 1074) + nat (e2 + 1074)))))"
    by (rule round_ratio_mul_pow)
  also have "\<dots> = round_q (m1 * m2) 1 (e1 + e2)"
  proof (cases "0 \<le> e1 + e2 + 1074")
    case True
    then have a: "1074 \<le> nat (e1 + 1074) + nat (e2 + 1074)" using assms by linarith
    have b: "nat (e1 + 1074) + nat (e2 + 1074) - 1074 = nat (e1 + e2 + 1074)" using assms True by linarith
    show ?thesis unfolding round_q_def using True a b by (simp only: if_True)
  next
    case False
    then have a: "\<not> 1074 \<le> nat (e1 + 1074) + nat (e2 + 1074)" using assms by linarith
    have b: "1074 - (nat (e1 + 1074) + nat (e2 + 1074)) = nat (- (e1 + e2 + 1074))" using assms False by linarith
    show ?thesis unfolding round_q_def using False a b by (simp only: if_False mult_1)
  qed
  finally show ?thesis .
qed

lemma round_ratio_div_pow:
  assumes "0 < m2"
  shows "round_ratio (m1 * 2 ^ n1 * 2 ^ N) (m2 * 2 ^ n2) =
     (if n2 \<le> n1 + N then round_ratio (m1 * 2 ^ (n1 + N - n2)) m2
      else round_ratio m1 (m2 * 2 ^ (n2 - (n1 + N))))"
proof (cases "n2 \<le> n1 + N")
  case True
  then have "n1 + N = n2 + (n1 + N - n2)" by simp
  then have "(2::int) ^ n1 * 2 ^ N = 2 ^ n2 * 2 ^ (n1 + N - n2)"
    by (metis power_add)
  then have E: "m1 * 2 ^ n1 * 2 ^ N = 2 ^ n2 * (m1 * 2 ^ (n1 + N - n2))"
    by (simp add: mult.assoc mult.left_commute)
  have D: "m2 * 2 ^ n2 = 2 ^ n2 * m2" by (rule mult.commute)
  have "round_ratio (2 ^ n2 * (m1 * 2 ^ (n1 + N - n2))) (2 ^ n2 * m2)
      = round_ratio (m1 * 2 ^ (n1 + N - n2)) m2"
    by (rule round_ratio_cancel) (use assms in simp_all)
  then show ?thesis unfolding E D using True by (simp only: if_True)
next
  case False
  then have "n2 = (n1 + N) + (n2 - (n1 + N))" by simp
  then have "(2::int) ^ n2 = 2 ^ (n1 + N) * 2 ^ (n2 - (n1 + N))"
    by (metis power_add)
  then have D: "m2 * 2 ^ n2 = 2 ^ (n1 + N) * (m2 * 2 ^ (n2 - (n1 + N)))"
    by (simp add: mult.assoc mult.left_commute)
  have E: "m1 * 2 ^ n1 * 2 ^ N = 2 ^ (n1 + N) * m1"
    by (simp add: power_add mult.assoc mult.left_commute mult.commute)
  have "round_ratio (2 ^ (n1 + N) * m1) (2 ^ (n1 + N) * (m2 * 2 ^ (n2 - (n1 + N))))
      = round_ratio m1 (m2 * 2 ^ (n2 - (n1 + N)))"
    by (rule round_ratio_cancel) (use assms in simp_all)
  then show ?thesis unfolding E D using False by (simp only: if_False)
qed

lemma round_ratio_div_dbl:
  assumes "- 1074 \<le> e1" "- 1074 \<le> e2" "0 < m2"
  shows "round_ratio (m1 * 2 ^ nat (e1 + 1074) * 2 ^ 1074) (m2 * 2 ^ nat (e2 + 1074))
     = round_q m1 m2 (e1 - e2)"
proof -
  have "round_ratio (m1 * 2 ^ nat (e1 + 1074) * 2 ^ 1074) (m2 * 2 ^ nat (e2 + 1074)) =
     (if nat (e2 + 1074) \<le> nat (e1 + 1074) + 1074
      then round_ratio (m1 * 2 ^ (nat (e1 + 1074) + 1074 - nat (e2 + 1074))) m2
      else round_ratio m1 (m2 * 2 ^ (nat (e2 + 1074) - (nat (e1 + 1074) + 1074))))"
    by (rule round_ratio_div_pow[OF assms(3)])
  also have "\<dots> = round_q m1 m2 (e1 - e2)"
  proof (cases "0 \<le> e1 - e2 + 1074")
    case True
    then have a: "nat (e2 + 1074) \<le> nat (e1 + 1074) + 1074" using assms by linarith
    have b: "nat (e1 + 1074) + 1074 - nat (e2 + 1074) = nat (e1 - e2 + 1074)" using assms True by linarith
    show ?thesis unfolding round_q_def using True a b by (simp only: if_True)
  next
    case False
    then have a: "\<not> nat (e2 + 1074) \<le> nat (e1 + 1074) + 1074" using assms by linarith
    have b: "nat (e2 + 1074) - (nat (e1 + 1074) + 1074) = nat (- (e1 - e2 + 1074))" using assms False by linarith
    show ?thesis unfolding round_q_def using False a b by (simp only: if_False)
  qed
  finally show ?thesis .
qed

lemma float_div_dbl:
  assumes "- 1074 \<le> e1" "- 1074 \<le> e2"
  shows "float_div (dbl m1 e1) (dbl m2 e2) =
     (if m2 = 0 then Inl ZeroDivisionError
      else Inr (if 0 < m2 then round_q m1 m2 (e1 - e2) else round_q (- m1) (- m2) (e1 - e2)))"
proof -
  have z: "m2 * 2 ^ nat (e2 + 1074) = 0 \<longleftrightarrow> m2 = 0" by simp
  have p: "0 < m2 * 2 ^ nat (e2 + 1074) \<longleftrightarrow> 0 < m2" by (simp add: zero_less_mult_iff)
  have n1: "- (m1 * 2 ^ nat (e1 + 1074)) * 2 ^ 1074 = (- m1) * 2 ^ nat (e1 + 1074) * 2 ^ 1074"
    by (simp only: mult_minus_left)
  have n2: "- (m2 * 2 ^ nat (e2 + 1074)) = (- m2) * 2 ^ nat (e2 + 1074)"
    by (simp only: mult_minus_left)
  show ?thesis
  proof (cases "m2 = 0")
    case True
    then show ?thesis by (simp add: dbl_def)
  next
    case False
    show ?thesis
    proof (cases "0 < m2")
      case True
      show ?thesis using True False round_ratio_div_dbl[OF assms True, of m1]
        by (simp only: dbl_def float_div.simps z p if_True if_False pyfloat.case)
    next
      case neg: False
      then have "0 < - m2" using False by simp
      from round_ratio_div_dbl[OF assms this, of "- m1"]
      show ?thesis using neg False
        by (simp only: dbl_def float_div.simps z p if_True if_False pyfloat.case n1 n2)
    qed
  qed
qed

lemma float_of_int_code:
  "float_of_int i = (let r = round_q i 1 0 in if is_finite r then Inr r else Inl OverflowError)"
  by (simp only: float_of_int_def round_q_def) simp

lemma is_finite_dbl: "is_finite (dbl m e)"
  by (simp add: dbl_def)

lemma bitlen_One: "bitlen 1 = 1"
  by (subst compute_bitlen) simp

lemma bitlen_Bit0: "bitlen (numeral (Num.Bit0 n)) = bitlen (numeral n) + 1"
  by (subst compute_bitlen) simp

lemma bitlen_Bit1: "bitlen (numeral (Num.Bit1 n)) = bitlen (numeral n) + 1"
  by (subst compute_bitlen) simp

lemma dbl_eq_iff:
  assumes "- 1074 \<le> e1" "- 1074 \<le> e2"
  shows "dbl m1 e1 = dbl m2 e2 \<longleftrightarrow>
     m1 * 2 ^ nat (e1 - min e1 e2) = m2 * 2 ^ nat (e2 - min e1 e2)"
proof -
  define e where "e = min e1 e2"
  have e: "- 1074 \<le> e" "e \<le> e1" "e \<le> e2" using assms by (simp_all add: e_def)
  have n1: "nat (e1 + 1074) = nat (e1 - e) + nat (e + 1074)" using e by simp
  have n2: "nat (e2 + 1074) = nat (e2 - e) + nat (e + 1074)" using e by simp
  show ?thesis unfolding e_def[symmetric]
    by (simp add: dbl_def n1 n2 power_add mult.assoc[symmetric])
qed

lemma float_lt_dbl:
  assumes "- 1074 \<le> e1" "- 1074 \<le> e2"
  shows "float_lt (dbl m1 e1) (dbl m2 e2) \<longleftrightarrow>
     m1 * 2 ^ nat (e1 - min e1 e2) < m2 * 2 ^ nat (e2 - min e1 e2)"
proof -
  define e where "e = min e1 e2"
  have e: "- 1074 \<le> e" "e \<le> e1" "e \<le> e2" using assms by (simp_all add: e_def)
  have n1: "nat (e1 + 1074) = nat (e1 - e) + nat (e + 1074)" using e by simp
  have n2: "nat (e2 + 1074) = nat (e2 - e) + nat (e + 1074)" using e by simp
  show ?thesis unfolding e_def[symmetric]
    by (simp add: dbl_def n1 n2 power_add mult.assoc[symmetric])
qed

lemma dbl_neq_special: "dbl m e \<noteq> PInf" "dbl m e \<noteq> NInf" "dbl m e \<noteq> NaN"
  "PInf \<noteq> dbl m e" "NInf \<noteq> dbl m e" "NaN \<noteq> dbl m e"
  by (simp_all add: dbl_def)

lemmas float_eval = float_sub_dbl float_mul_dbl float_div_dbl float_of_int_code round_q_code
  round_mant_def round_shift_def round_ratio_def Let_def
  bitlen_One bitlen_Bit0 bitlen_Bit1 dbl_eq_iff float_lt_dbl is_finite_dbl
  dbl_neq_special

section \<open>The feature loop\<close>

lemma collect_features_acc:
  "collect_features L b feats acc =
     (case collect_features L b feats [] of Inl e \<Rightarrow> Inl e | Inr out \<Rightarrow> Inr (acc @ out))"
proof (induction feats arbitrary: acc)
  case Nil
  then show ?case by simp
next
  case (Cons f feats)
  show ?case
  proof (cases "tile_feature L b f")
    case (Inl e)
    then show ?thesis by simp
  next
    case (Inr r)
    show ?thesis
    proof (cases r)
      case None
      with Inr show ?thesis using Cons.IH[of acc] by simp
    next
      case (Some q)
      with Inr show ?thesis using Cons.IH[of "acc @ [q]"] Cons.IH[of "[q]"]
        by (simp split: sum.splits)
    qed
  qed
qed

lemma tile_feature_Some:
  assumes "tile_feature L b f = Inr (Some q)"
  shows "survives L b f \<and> quantized_from L b f q"
  using assms
  by (auto simp: tile_feature_def survives_def quantized_from_def spec_clip_def and_then_def
        mapping_def Let_def split: sum.splits if_splits)

lemma tile_feature_None:
  assumes "tile_feature L b f = Inr None"
  shows "\<not> survives L b f"
  using assms
  by (auto simp: tile_feature_def survives_def spec_clip_def and_then_def
        mapping_def Let_def split: sum.splits if_splits)

lemma collect_features_rel:
  assumes "collect_features L b feats [] = Inr out"
  shows "list_all2 (quantized_from L b) (filter (survives L b) feats) out"
  using assms
proof (induction feats arbitrary: out)
  case Nil
  then show ?case by simp
next
  case (Cons f feats)
  show ?case
  proof (cases "tile_feature L b f")
    case (Inl e)
    with Cons.prems show ?thesis by simp
  next
    case (Inr r)
    show ?thesis
    proof (cases r)
      case None
      with Inr Cons.prems have "collect_features L b feats [] = Inr out" by simp
      from Cons.IH[OF this] tile_feature_None[of L b f] Inr None show ?thesis by simp
    next
      case (Some q)
      with Inr Cons.prems have c: "collect_features L b feats [q] = Inr out" by simp
      then obtain rest where r: "collect_features L b feats [] = Inr rest" and o: "out = q # rest"
        by (subst (asm) collect_features_acc) (auto split: sum.splits)
      from Cons.IH[OF r] tile_feature_Some[of L b f q] Inr Some o show ?thesis by simp
    qed
  qed
qed

lemma collect_features_returns:
  assumes "\<forall>f\<in>set feats. \<not> raises (tile_feature L b f)"
  shows "\<exists>out. collect_features L b feats acc = Inr out"
  using assms
proof (induction feats arbitrary: acc)
  case Nil
  then show ?case by simp
next
  case (Cons f feats)
  then show ?case by (auto simp: raises_def split: sum.splits option.splits)
qed

lemma collect_features_raises:
  assumes "tile_feature L b f = Inl e" "\<forall>g\<in>set pre. \<not> raises (tile_feature L b g)"
  shows "collect_features L b (pre @ f # post) acc = Inl e"
  using assms
proof (induction pre arbitrary: acc)
  case Nil
  then show ?case by simp
next
  case (Cons g pre)
  then show ?case by (auto simp: raises_def split: sum.splits option.splits)
qed

section \<open>Runs on the library instance\<close>

lemma float_pow2_code:
  "float_pow2 z = and_then (float_of_int z) (\<lambda>_.
       if 1024 \<le> z then Inl OverflowError
       else if z < - 1074 then Inr (dbl 0 0)
       else Inr (dbl 1 z))"
  by (simp add: float_pow2_def dbl_def)

lemmas model_eval = tile_to_bbox_def lat_deg_from_tile_def sinh_arg_def and_then_def math_pi_def
  math_degrees_def rad_to_deg_def box_def float_pow2_code

lemmas ex_eval = ex_libs_def ex_sinh_def ex_atan_def ex_to_3857_def ex_merc_x_def ex_merc_y_def

lemma ex_tile_000: "tile_to_bbox ex_libs 0 0 0 = Inr ex_bbox"
  by (simp add: model_eval ex_eval float_eval ex_bbox_def)

lemma ex_bounds:
  "bounds ex_bbox = (dbl (- 5378777689100435) (- 28), dbl (- 2689388844550219) (- 27),
                     dbl 5378777689100435 (- 28), dbl 5378777689100435 (- 28))"
  by (simp add: ex_bbox_def bounds_def float_min_def float_max_def float_eval)

lemma ex_quantize:
  "geometry_to_tile_coords g ex_bbox =
     Inr (transform (affine_transform_func (dbl (- 5378777689100435) (- 28))
            (dbl 5378777689100435 (- 28)) (dbl 7541642646712089 (- 66))
            (dbl 7541642646712088 (- 66))) g)"
  by (simp add: geometry_to_tile_coords_def ex_bounds TILE_EXTENT_def and_then_def float_eval)

lemmas feature_eval = tile_feature_def shape_def and_then_def mapping_def is_empty_def
  ex_intersects_def ex_intersection_def point_in_box_def float_le_def affine_transform_func_def

lemma ex_tile_origin: "tile_feature ex_libs ex_bbox ex_origin = Inr (Some ex_origin_tile)"
  by (simp add: feature_eval ex_eval ex_origin_def ex_origin_tile_def ex_bounds ex_quantize float_eval)

lemma ex_tile_corner: "tile_feature ex_libs ex_bbox ex_corner = Inr (Some ex_corner_tile)"
  by (simp add: feature_eval ex_eval ex_corner_def ex_corner_tile_def ex_bounds ex_quantize float_eval)

lemma ex_tile_north: "tile_feature ex_libs ex_bbox ex_north = Inr None"
  by (simp add: feature_eval ex_eval ex_north_def ex_bounds ex_quantize float_eval)

lemma ex_tile_no_shape: "tile_feature L b ex_no_shape = Inl AttributeError"
  by (simp add: tile_feature_def shape_def and_then_def ex_no_shape_def)

section \<open>The projector and clipper\<close>


lemma tile_layers_eq:
  assumes "tile_to_bbox L z x y = Inr bbox" "fiona_open L path = Inr src"
  shows "tile_layers L path z x y =
     and_then (collect_features L bbox (src_features src) []) (\<lambda>fs.
       Inr (if fs \<noteq> [] then [\<lparr>name = layer_name_of src, features = fs\<rparr>] else []))"
  using assms by (simp add: tile_layers_def and_then_def split: sum.splits)



section \<open>Layers and attributes\<close>

lemma ex_open_test:
  "fiona_open ex_libs ''shp/test_shp.shp'' =
     Inr \<lparr>src_name = Some ''test_shp'', src_features = [ex_origin, ex_north, ex_corner]\<rparr>"
  by (simp add: ex_libs_def ex_open_def)

lemma ex_open_no_shape:
  "fiona_open ex_libs ''shp/no_shape.shp'' =
     Inr \<lparr>src_name = None, src_features = [ex_origin, ex_no_shape, ex_corner]\<rparr>"
  by (simp add: ex_libs_def ex_open_def)

lemma ex_open_outside:
  "fiona_open ex_libs ''shp/outside.shp'' =
     Inr \<lparr>src_name = Some [], src_features = [ex_north, ex_north]\<rparr>"
  by (simp add: ex_libs_def ex_open_def)

lemma ex_layers_test:
  "tile_layers ex_libs ''shp/test_shp.shp'' 0 0 0 =
     Inr [\<lparr>name = ''test_shp'', features = [ex_origin_tile, ex_corner_tile]\<rparr>]"
  by (simp add: tile_layers_eq[OF ex_tile_000 ex_open_test] and_then_def layer_name_of_def
        ex_tile_origin ex_tile_north ex_tile_corner)

text \<open>
  C9. The attribute mappings of the features handed to the encoder are, in order, exactly
  the attribute mappings of the source features that survive clipping: each emitted
  feature carries the \<^verbatim>\<open>properties\<close> of its source feature as they are.
\<close>

theorem attributes_pass_through:
  assumes "tile_to_bbox L z x y = Inr bbox" and "fiona_open L path = Inr src"
    and "tile_layers L path z x y = Inr layers"
  shows "concat (map (\<lambda>l. map properties (features l)) layers) =
     map properties (filter (survives L bbox) (src_features src))"
proof -
  from assms obtain fs where c: "collect_features L bbox (src_features src) [] = Inr fs"
    and l: "layers = (if fs \<noteq> [] then [\<lparr>name = layer_name_of src, features = fs\<rparr>] else [])"
    by (auto simp: tile_layers_eq and_then_def split: sum.splits)
  from collect_features_rel[OF c]
  have "list_all2 (\<lambda>f q. properties q = properties f) (filter (survives L bbox) (src_features src)) fs"
    by (rule list_all2_mono) (auto simp: quantized_from_def split: option.splits)
  then have "map properties fs = map properties (filter (survives L bbox) (src_features src))"
    by (induction rule: list_all2_induct) auto
  then show ?thesis using l by (cases "fs = []") auto
qed

theorem attributes_pass_through_witness:
  "tile_to_bbox ex_libs 0 0 0 = Inr ex_bbox
   \<and> tile_layers ex_libs ''shp/test_shp.shp'' 0 0 0 =
       Inr [\<lparr>name = ''test_shp'', features = [ex_origin_tile, ex_corner_tile]\<rparr>]
   \<and> map properties (filter (survives ex_libs ex_bbox) [ex_origin, ex_north, ex_corner]) =
       [[(''name'', PyStr ''origin''), (''id'', PyInt 1)],
        [(''name'', PyStr ''corner''), (''id'', PyInt 3)]]"
  using attributes_pass_through[OF ex_tile_000 ex_open_test ex_layers_test] ex_tile_000 ex_layers_test
  by (simp add: ex_origin_tile_def ex_corner_tile_def)

text \<open>
  C10. Whenever \<^verbatim>\<open>create_pbf_tile\<close> does not return \<^verbatim>\<open>None\<close>, the list \<^verbatim>\<open>layers\<close> it built and
  hands to the encoder is one layer, with at least one feature, named after the opened
  source, or \<^verbatim>\<open>'layer'\<close> when the source's name is \<^verbatim>\<open>None\<close> or empty.
\<close>

theorem exactly_one_named_layer:
  assumes "tile_layers L path z x y = Inr layers"
    and "create_pbf_tile L path z x y \<noteq> Inr None"
  shows "\<exists>src fs. fiona_open L path = Inr src \<and> fs \<noteq> []
     \<and> layers = [\<lparr>name = (case src_name src of None \<Rightarrow> ''layer''
                              | Some s \<Rightarrow> if s = [] then ''layer'' else s),
                   features = fs\<rparr>]
     \<and> create_pbf_tile L path z x y = and_then (mvt_encode L layers) (\<lambda>pbf. Inr (Some pbf))"
proof -
  from assms(1) obtain bbox src fs where o: "fiona_open L path = Inr src"
    and l: "layers = (if fs \<noteq> [] then [\<lparr>name = layer_name_of src, features = fs\<rparr>] else [])"
    by (auto simp: tile_layers_def and_then_def split: sum.splits)
  from assms have ne: "layers \<noteq> []" by (auto simp: create_pbf_tile_def and_then_def)
  with l have fs: "fs \<noteq> []" by (cases "fs = []") auto
  from assms(1) ne have "create_pbf_tile L path z x y = and_then (mvt_encode L layers) (\<lambda>pbf. Inr (Some pbf))"
    by (simp add: create_pbf_tile_def and_then_def)
  with o l fs show ?thesis by (auto simp: layer_name_of_def)
qed

theorem exactly_one_named_layer_witness:
  "tile_layers ex_libs ''shp/test_shp.shp'' 0 0 0 =
     Inr [\<lparr>name = ''test_shp'', features = [ex_origin_tile, ex_corner_tile]\<rparr>]
   \<and> create_pbf_tile ex_libs ''shp/test_shp.shp'' 0 0 0 = Inr (Some ''test_shp'')
   \<and> (\<exists>src fs. fiona_open ex_libs ''shp/test_shp.shp'' = Inr src \<and> fs \<noteq> []
        \<and> [\<lparr>name = ''test_shp'', features = [ex_origin_tile, ex_corner_tile]\<rparr>] =
            [\<lparr>name = (case src_name src of None \<Rightarrow> ''layer''
                       | Some s \<Rightarrow> if s = [] then ''layer'' else s),
              features = fs\<rparr>])"
proof -
  have c: "create_pbf_tile ex_libs ''shp/test_shp.shp'' 0 0 0 = Inr (Some ''test_shp'')"
  proof -
    have "mvt_encode ex_libs [\<lparr>name = ''test_shp'', features = [ex_origin_tile, ex_corner_tile]\<rparr>]
        = Inr ''test_shp''"
      by (simp add: ex_libs_def ex_encode_def)
    then show ?thesis by (simp add: create_pbf_tile_def ex_layers_test and_then_def)
  qed
  then have n: "create_pbf_tile ex_libs ''shp/test_shp.shp'' 0 0 0 \<noteq> Inr None" by simp
  from exactly_one_named_layer[OF ex_layers_test n] ex_layers_test c show ?thesis by blast
qed

section \<open>The empty tile\<close>

lemma collect_features_none:
  assumes "\<forall>f\<in>set feats. \<not> raises (tile_feature L b f)"
    and "filter (survives L b) feats = []"
  shows "collect_features L b feats [] = Inr []"
proof -
  from collect_features_returns[OF assms(1), of "[]"] obtain out
    where c: "collect_features L b feats [] = Inr out" by blast
  from collect_features_rel[OF c] assms(2) have "out = []" by simp
  with c show ?thesis by simp
qed

lemma outside_feature:
  assumes "shape L (geometry f) = Inr g"
    and "geos_intersects L (transform (transformer_to_3857 L) g) b = Inr False"
  shows "tile_feature L b f = Inr None"
  using assms by (simp add: tile_feature_def and_then_def)

text \<open>
  C7. When the box is computed, the source opens, no library call raises on a feature
  and no feature survives clipping, \<^verbatim>\<open>layers\<close> stays empty and \<^verbatim>\<open>create_pbf_tile\<close> returns
  \<^verbatim>\<open>None\<close>; the handler then answers 204 No Content (by raising \<^verbatim>\<open>HTTPException(204)\<close>,
  which is how it sends that response). In particular this is so when the reprojected
  geometry of every feature does not intersect the box.
\<close>

theorem empty_tile_returns_none:
  assumes "tile_to_bbox L z x y = Inr bbox" and "fiona_open L path = Inr src"
  shows "((\<forall>f\<in>set (src_features src). \<not> raises (tile_feature L bbox f))
          \<and> filter (survives L bbox) (src_features src) = []
        \<longrightarrow> tile_layers L path z x y = Inr [] \<and> create_pbf_tile L path z x y = Inr None
            \<and> (path = SHAPEFILE_PATH \<longrightarrow>
                  serve_pbf_tile L z x y = Inl (HTTPException 204 ''No Content'')))
     \<and> ((\<forall>f\<in>set (src_features src). \<exists>g. shape L (geometry f) = Inr g
            \<and> geos_intersects L (transform (transformer_to_3857 L) g) bbox = Inr False)
        \<longrightarrow> tile_layers L path z x y = Inr [] \<and> create_pbf_tile L path z x y = Inr None
            \<and> (path = SHAPEFILE_PATH \<longrightarrow>
                  serve_pbf_tile L z x y = Inl (HTTPException 204 ''No Content'')))"
proof -
  have main: "tile_layers L path z x y = Inr [] \<and> create_pbf_tile L path z x y = Inr None
      \<and> (path = SHAPEFILE_PATH \<longrightarrow> serve_pbf_tile L z x y = Inl (HTTPException 204 ''No Content''))"
    if c: "collect_features L bbox (src_features src) [] = Inr []"
  proof -
    have l: "tile_layers L path z x y = Inr []"
      by (simp add: tile_layers_eq[OF assms] c and_then_def)
    then have p: "create_pbf_tile L path z x y = Inr None"
      by (simp add: create_pbf_tile_def and_then_def)
    from l p show ?thesis by (auto simp: serve_pbf_tile_def and_then_def)
  qed
  have first: "collect_features L bbox (src_features src) [] = Inr []"
    if "\<forall>f\<in>set (src_features src). \<not> raises (tile_feature L bbox f)"
      and "filter (survives L bbox) (src_features src) = []"
    using that by (rule collect_features_none)
  have second: "collect_features L bbox (src_features src) [] = Inr []"
    if o: "\<forall>f\<in>set (src_features src). \<exists>g. shape L (geometry f) = Inr g
            \<and> geos_intersects L (transform (transformer_to_3857 L) g) bbox = Inr False"
  proof -
    have n: "\<forall>f\<in>set (src_features src). tile_feature L bbox f = Inr None"
      using o outside_feature by blast
    then have "\<forall>f\<in>set (src_features src). \<not> raises (tile_feature L bbox f)"
      by (simp add: raises_def)
    moreover have "filter (survives L bbox) (src_features src) = []"
      using n tile_feature_None by (auto simp: filter_empty_conv)
    ultimately show ?thesis by (rule collect_features_none)
  qed
  from main first second show ?thesis by blast
qed

lemma tile_to_bbox_fiona_open:
  "tile_to_bbox (L\<lparr>fiona_open := f\<rparr>) z x y = tile_to_bbox L z x y"
  by (simp add: tile_to_bbox_def lat_deg_from_tile_def sinh_arg_def)

lemma tile_feature_fiona_open:
  "tile_feature (L\<lparr>fiona_open := f\<rparr>) b feat = tile_feature L b feat"
  by (simp add: tile_feature_def shape_def Let_def cong: if_cong option.case_cong)

theorem empty_tile_witness:
  "tile_to_bbox (ex_libs\<lparr>fiona_open := \<lambda>p. ex_open ''shp/outside.shp''\<rparr>) 0 0 0 = Inr ex_bbox
   \<and> fiona_open (ex_libs\<lparr>fiona_open := \<lambda>p. ex_open ''shp/outside.shp''\<rparr>) SHAPEFILE_PATH
       = Inr \<lparr>src_name = Some [], src_features = [ex_north, ex_north]\<rparr>
   \<and> tile_feature (ex_libs\<lparr>fiona_open := \<lambda>p. ex_open ''shp/outside.shp''\<rparr>) ex_bbox ex_north
       = Inr None
   \<and> tile_layers (ex_libs\<lparr>fiona_open := \<lambda>p. ex_open ''shp/outside.shp''\<rparr>) SHAPEFILE_PATH 0 0 0
       = Inr []
   \<and> create_pbf_tile (ex_libs\<lparr>fiona_open := \<lambda>p. ex_open ''shp/outside.shp''\<rparr>) SHAPEFILE_PATH 0 0 0
       = Inr None
   \<and> serve_pbf_tile (ex_libs\<lparr>fiona_open := \<lambda>p. ex_open ''shp/outside.shp''\<rparr>) 0 0 0
       = Inl (HTTPException 204 ''No Content'')"
proof -
  let ?L = "ex_libs\<lparr>fiona_open := \<lambda>p. ex_open ''shp/outside.shp''\<rparr>"
  have b: "tile_to_bbox ?L 0 0 0 = Inr ex_bbox"
    by (simp only: tile_to_bbox_fiona_open ex_tile_000)
  have o: "fiona_open ?L SHAPEFILE_PATH = Inr \<lparr>src_name = Some [], src_features = [ex_north, ex_north]\<rparr>"
    by (simp add: ex_open_def)
  have n: "tile_feature ?L ex_bbox ex_north = Inr None"
    by (simp only: tile_feature_fiona_open ex_tile_north)
  have s: "filter (survives ?L ex_bbox) [ex_north, ex_north] = []"
    using tile_feature_None[OF n] by simp
  have r: "\<not> raises (tile_feature ?L ex_bbox ex_north)"
    by (simp add: n raises_def)
  from empty_tile_returns_none[OF b o] s r
  have "tile_layers ?L SHAPEFILE_PATH 0 0 0 = Inr []
      \<and> create_pbf_tile ?L SHAPEFILE_PATH 0 0 0 = Inr None
      \<and> serve_pbf_tile ?L 0 0 0 = Inl (HTTPException 204 ''No Content'')"
    by simp
  with b o n show ?thesis by blast
qed

section \<open>Features that fail to parse\<close>

lemma shape_fails:
  assumes "shape L (geometry f) = Inl e"
  shows "tile_feature L b f = Inl e"
  using assms by (simp add: tile_feature_def and_then_def)

text \<open>
  C5, as the code has it. The loop has no exception handler: when \<^verbatim>\<open>shape\<close> raises on a
  feature (for a record without a shape it raises \<^verbatim>\<open>AttributeError\<close>) and no earlier
  feature raised, \<^verbatim>\<open>create_pbf_tile\<close> raises that exception; the features before and
  after it yield no tile.
\<close>

theorem failing_feature_aborts_tile:
  assumes "tile_to_bbox L z x y = Inr bbox" and "fiona_open L path = Inr src"
    and "src_features src = pre @ f # post"
    and "\<forall>g\<in>set pre. \<not> raises (tile_feature L bbox g)"
    and "shape L (geometry f) = Inl e"
  shows "create_pbf_tile L path z x y = Inl e \<and> (geometry f = None \<longrightarrow> e = AttributeError)"
proof -
  from shape_fails[OF assms(5)] have "tile_feature L bbox f = Inl e" .
  from collect_features_raises[OF this assms(4)]
  have "collect_features L bbox (src_features src) [] = Inl e" by (simp add: assms(3))
  then have "tile_layers L path z x y = Inl e"
    by (simp add: tile_layers_eq[OF assms(1,2)] and_then_def)
  then have "create_pbf_tile L path z x y = Inl e"
    by (simp add: create_pbf_tile_def and_then_def)
  moreover have "geometry f = None \<longrightarrow> e = AttributeError"
    using assms(5) by (auto simp: shape_def)
  ultimately show ?thesis by simp
qed

theorem failing_feature_aborts_tile_witness:
  "tile_to_bbox ex_libs 0 0 0 = Inr ex_bbox
   \<and> fiona_open ex_libs ''shp/no_shape.shp'' =
       Inr \<lparr>src_name = None, src_features = [ex_origin] @ ex_no_shape # [ex_corner]\<rparr>
   \<and> \<not> raises (tile_feature ex_libs ex_bbox ex_origin)
   \<and> shape ex_libs (geometry ex_no_shape) = Inl AttributeError
   \<and> create_pbf_tile ex_libs ''shp/no_shape.shp'' 0 0 0 = Inl AttributeError"
proof -
  have f: "src_features \<lparr>src_name = None, src_features = [ex_origin, ex_no_shape, ex_corner]\<rparr>
      = [ex_origin] @ ex_no_shape # [ex_corner]" by simp
  have r: "\<forall>g\<in>set [ex_origin]. \<not> raises (tile_feature ex_libs ex_bbox g)"
    by (simp add: ex_tile_origin raises_def)
  have s: "shape ex_libs (geometry ex_no_shape) = Inl AttributeError"
    by (simp add: shape_def ex_no_shape_def)
  from failing_feature_aborts_tile[OF ex_tile_000 ex_open_no_shape f r s] r s
    ex_tile_000 ex_open_no_shape
  show ?thesis by simp
qed

text \<open>
  C5 as stated fails: with a record without a shape between two features that lie in the
  tile, the request does not skip that record and encode the other two; it raises
  \<^verbatim>\<open>AttributeError\<close>.
\<close>

theorem skip_unparsable_feature_counterexample:
  "fiona_open ex_libs ''shp/no_shape.shp'' =
     Inr \<lparr>src_name = None, src_features = [ex_origin, ex_no_shape, ex_corner]\<rparr>
   \<and> tile_feature ex_libs ex_bbox ex_origin = Inr (Some ex_origin_tile)
   \<and> tile_feature ex_libs ex_bbox ex_corner = Inr (Some ex_corner_tile)
   \<and> create_pbf_tile ex_libs ''shp/no_shape.shp'' 0 0 0 = Inl AttributeError"
proof -
  have "collect_features ex_libs ex_bbox [ex_origin, ex_no_shape, ex_corner] [] = Inl AttributeError"
    by (simp add: ex_tile_origin ex_tile_no_shape)
  then have "tile_layers ex_libs ''shp/no_shape.shp'' 0 0 0 = Inl AttributeError"
    by (simp add: tile_layers_eq[OF ex_tile_000 ex_open_no_shape] and_then_def)
  then have "create_pbf_tile ex_libs ''shp/no_shape.shp'' 0 0 0 = Inl AttributeError"
    by (simp add: create_pbf_tile_def and_then_def)
  with ex_open_no_shape ex_tile_origin ex_tile_corner show ?thesis by simp
qed

section \<open>Quantization\<close>

lemma float_div_error: "float_div a b = Inl e \<Longrightarrow> e = ZeroDivisionError"
  by (cases a; cases b) (auto split: if_splits)

lemma float_div_nonzero: "b \<noteq> Fin 0 \<Longrightarrow> \<exists>r. float_div a b = Inr r"
  by (cases a; cases b) auto

lemma float_of_int_extent: "float_of_int TILE_EXTENT = Inr (dbl 4096 0)"
  by (simp add: TILE_EXTENT_def float_eval)

lemma round_mant_ge_div:
  "a div (q * 2 ^ round_shift a q) \<le> round_mant a q"
  by (simp add: round_mant_def Let_def)

lemma round_ratio_pos_nonzero:
  assumes "0 < p"
  shows "round_ratio p 1 \<noteq> Fin 0"
proof -
  let ?s = "round_shift p 1"
  have "(2::int) ^ ?s \<le> p"
  proof (cases "?s = 0")
    case True
    then show ?thesis using assms by simp
  next
    case False
    then have b: "53 < bitlen p" by (simp add: round_shift_def)
    from bitlen_bounds[OF assms] have "2 ^ nat (bitlen p - 1) \<le> p" by simp
    moreover have "?s \<le> nat (bitlen p - 1)" using b by (simp add: round_shift_def)
    then have "(2::int) ^ ?s \<le> 2 ^ nat (bitlen p - 1)" by (simp only: power_increasing_iff one_less_numeral_iff semiring_norm)
    ultimately show ?thesis by linarith
  qed
  then have "1 \<le> p div (1 * 2 ^ ?s)" by (simp add: div_ge_iff)
  with round_mant_ge_div[of p 1] have "1 \<le> round_mant p 1" by linarith
  then have "0 < round_mant p 1 * 2 ^ ?s" by simp
  then show ?thesis using assms by (auto simp: round_ratio_alt Let_def)
qed

lemma transform_coords: "coords_of (transform f g) = map f (coords_of g)"
proof (induction g)
  case (Point c)
  then show ?case by (cases c) simp_all
next
  case (LineString cs)
  then show ?case by simp
next
  case (Polygon shell holes)
  then show ?case by (simp add: map_concat)
next
  case (Collection k gs)
  then show ?case by (simp add: map_concat cong: map_cong)
qed

section \<open>The degenerate box\<close>

lemma is_finite_Fin: "is_finite a \<Longrightarrow> \<exists>k. a = Fin k"
  by (cases a) simp_all

lemma geometry_to_tile_coords_eq:
  assumes "bounds bbox = (minx, miny, maxx, maxy)"
  shows "geometry_to_tile_coords geom bbox =
     and_then (float_div (dbl 4096 0) (float_sub maxx minx)) (\<lambda>scale_x.
     and_then (float_div (dbl 4096 0) (float_sub maxy miny)) (\<lambda>scale_y.
     Inr (transform (affine_transform_func minx maxy scale_x scale_y) geom)))"
  by (simp add: geometry_to_tile_coords_def assms float_of_int_extent and_then_def)

text \<open>
  C6, as the code has it. For a box with finite bounds and zero width or zero height the
  quantizer fails, with Python's \<^verbatim>\<open>ZeroDivisionError\<close> raised by the division by the box
  extent; it never fails with a ConfigurationError.
\<close>

theorem degenerate_box_raises_zero_division:
  assumes "bounds bbox = (minx, miny, maxx, maxy)"
    and "is_finite minx" and "is_finite miny"
    and "maxx = minx \<or> maxy = miny"
  shows "geometry_to_tile_coords geom bbox = Inl ZeroDivisionError"
proof -
  from assms(2,3) obtain a b where ab: "minx = Fin a" "miny = Fin b"
    using is_finite_Fin by blast
  show ?thesis
  proof (cases "maxx = minx")
    case True
    then show ?thesis
      by (simp add: geometry_to_tile_coords_eq[OF assms(1)] ab round_ratio_zero and_then_def)
  next
    case False
    with assms(4) have y: "maxy = miny" by simp
    show ?thesis
    proof (cases "float_div (dbl 4096 0) (float_sub maxx minx)")
      case (Inl e)
      with float_div_error[OF Inl] show ?thesis
        by (simp add: geometry_to_tile_coords_eq[OF assms(1)] and_then_def)
    next
      case (Inr sx)
      then show ?thesis
        by (simp add: geometry_to_tile_coords_eq[OF assms(1)] y ab round_ratio_zero and_then_def)
    qed
  qed
qed

lemma ex_bounds_flat:
  "bounds (box (dbl 0 0) (dbl 0 0) (dbl 49 0) (dbl 0 0)) = (dbl 0 0, dbl 0 0, dbl 49 0, dbl 0 0)"
  by (simp add: box_def bounds_def float_min_def float_max_def float_eval)

lemma ex_bounds_thin:
  "bounds (box (dbl 0 0) (dbl 0 0) (dbl 0 0) (dbl 49 0)) = (dbl 0 0, dbl 0 0, dbl 0 0, dbl 49 0)"
  by (simp add: box_def bounds_def float_min_def float_max_def float_eval)

theorem degenerate_box_witness:
  "bounds (box (dbl 0 0) (dbl 0 0) (dbl 49 0) (dbl 0 0)) = (dbl 0 0, dbl 0 0, dbl 49 0, dbl 0 0)
   \<and> is_finite (dbl 0 0)
   \<and> geometry_to_tile_coords (Point (Some (dbl 7 0, dbl 0 0)))
        (box (dbl 0 0) (dbl 0 0) (dbl 49 0) (dbl 0 0)) = Inl ZeroDivisionError"
  using degenerate_box_raises_zero_division[OF ex_bounds_flat, of "Point (Some (dbl 7 0, dbl 0 0))"]
    ex_bounds_flat
  by (simp add: is_finite_dbl)

text \<open>
  C6 as stated fails: on a box of zero width the quantizer raises \<^verbatim>\<open>ZeroDivisionError\<close>, which
  is not a ConfigurationError.
\<close>

theorem degenerate_box_counterexample:
  "geometry_to_tile_coords (Point (Some (dbl 0 0, dbl 7 0)))
     (box (dbl 0 0) (dbl 0 0) (dbl 0 0) (dbl 49 0)) = Inl ZeroDivisionError
   \<and> geometry_to_tile_coords (Point (Some (dbl 0 0, dbl 7 0)))
     (box (dbl 0 0) (dbl 0 0) (dbl 0 0) (dbl 49 0)) \<noteq> Inl ConfigurationError"
  by (simp add: geometry_to_tile_coords_eq[OF ex_bounds_thin] and_then_def float_eval)

section \<open>The quantizer's formula\<close>

lemma float_lt_sub_nonzero:
  assumes "is_finite a" "is_finite b" "float_lt a b"
  shows "float_sub b a \<noteq> Fin 0"
proof -
  from assms(1,2) obtain x y where xy: "a = Fin x" "b = Fin y" using is_finite_Fin by blast
  with assms(3) show ?thesis by (simp add: round_ratio_pos_nonzero)
qed

lemma float_mul_zero_left:
  assumes "is_finite a" "is_finite s"
  shows "float_mul (float_sub a a) s = Fin 0"
proof -
  from assms obtain x y where "a = Fin x" "s = Fin y" using is_finite_Fin by blast
  then show ?thesis by (simp add: round_ratio_zero)
qed

text \<open>
  C2, as the code has it. For a box with finite bounds, \<open>minX < maxX\<close> and \<open>minY < maxY\<close>,
  the quantizer does not raise and replaces every coordinate \<open>(x, y)\<close> of the geometry by
  \<open>tx = (x - minX) * scaleX\<close> and \<open>ty = (maxY - y) * scaleY\<close>, with
  \<open>scaleX = 4096 / (maxX - minX)\<close> and \<open>scaleY = 4096 / (maxY - minY)\<close>, every operation
  being the correctly rounded operation on doubles. A point at \<open>y = maxY\<close> gets tile-local
  Y 0 when \<open>scaleY\<close> is finite. (A point at \<open>y = minY\<close> gets \<open>(maxY - minY) * scaleY\<close>,
  which the two roundings can leave below 4096.)
\<close>

theorem quantizer_formula:
  assumes "bounds bbox = (minx, miny, maxx, maxy)"
    and "is_finite minx" and "is_finite miny" and "is_finite maxx" and "is_finite maxy"
    and "float_lt minx maxx" and "float_lt miny maxy"
  shows "\<exists>scale_x scale_y.
      float_div (dbl 4096 0) (float_sub maxx minx) = Inr scale_x
    \<and> float_div (dbl 4096 0) (float_sub maxy miny) = Inr scale_y
    \<and> geometry_to_tile_coords geom bbox =
         Inr (transform (\<lambda>c. (float_mul (float_sub (fst c) minx) scale_x,
                              float_mul (float_sub maxy (snd c)) scale_y)) geom)
    \<and> coords_of (transform (\<lambda>c. (float_mul (float_sub (fst c) minx) scale_x,
                              float_mul (float_sub maxy (snd c)) scale_y)) geom) =
         map (\<lambda>c. (float_mul (float_sub (fst c) minx) scale_x,
                    float_mul (float_sub maxy (snd c)) scale_y)) (coords_of geom)
    \<and> (is_finite scale_y \<longrightarrow> float_mul (float_sub maxy maxy) scale_y = Fin 0)"
proof -
  from float_div_nonzero[OF float_lt_sub_nonzero[OF assms(2,4,6)], of "dbl 4096 0"]
  obtain sx where sx: "float_div (dbl 4096 0) (float_sub maxx minx) = Inr sx" by blast
  from float_div_nonzero[OF float_lt_sub_nonzero[OF assms(3,5,7)], of "dbl 4096 0"]
  obtain sy where sy: "float_div (dbl 4096 0) (float_sub maxy miny) = Inr sy" by blast
  have f: "affine_transform_func minx maxy sx sy =
      (\<lambda>c. (float_mul (float_sub (fst c) minx) sx, float_mul (float_sub maxy (snd c)) sy))"
    by (rule ext) (simp add: affine_transform_func_def)
  have g: "geometry_to_tile_coords geom bbox =
      Inr (transform (\<lambda>c. (float_mul (float_sub (fst c) minx) sx,
                           float_mul (float_sub maxy (snd c)) sy)) geom)"
    by (simp add: geometry_to_tile_coords_eq[OF assms(1)] sx sy and_then_def f)
  have z: "is_finite sy \<longrightarrow> float_mul (float_sub maxy maxy) sy = Fin 0"
    using float_mul_zero_left[OF assms(5)] by blast
  from sx sy g z show ?thesis by (simp add: transform_coords)
qed

theorem quantizer_formula_witness:
  "bounds ex_bbox = (dbl (- 5378777689100435) (- 28), dbl (- 2689388844550219) (- 27),
                     dbl 5378777689100435 (- 28), dbl 5378777689100435 (- 28))
   \<and> float_lt (dbl (- 5378777689100435) (- 28)) (dbl 5378777689100435 (- 28))
   \<and> float_lt (dbl (- 2689388844550219) (- 27)) (dbl 5378777689100435 (- 28))
   \<and> (\<exists>scale_x scale_y.
        float_div (dbl 4096 0)
          (float_sub (dbl 5378777689100435 (- 28)) (dbl (- 5378777689100435) (- 28))) = Inr scale_x
      \<and> float_div (dbl 4096 0)
          (float_sub (dbl 5378777689100435 (- 28)) (dbl (- 2689388844550219) (- 27))) = Inr scale_y
      \<and> geometry_to_tile_coords (Point (Some (dbl 0 0, dbl 0 0))) ex_bbox =
           Inr (transform (\<lambda>c. (float_mul (float_sub (fst c) (dbl (- 5378777689100435) (- 28))) scale_x,
                                float_mul (float_sub (dbl 5378777689100435 (- 28)) (snd c)) scale_y))
                  (Point (Some (dbl 0 0, dbl 0 0)))))
   \<and> geometry_to_tile_coords (Point (Some (dbl 0 0, dbl 0 0))) ex_bbox =
       Inr (Point (Some (dbl 9007199254740991 (- 42), dbl 4503599627370495 (- 41))))"
proof -
  have lx: "float_lt (dbl (- 5378777689100435) (- 28)) (dbl 5378777689100435 (- 28))"
    by (simp add: float_eval)
  have ly: "float_lt (dbl (- 2689388844550219) (- 27)) (dbl 5378777689100435 (- 28))"
    by (simp add: float_eval)
  have run: "geometry_to_tile_coords (Point (Some (dbl 0 0, dbl 0 0))) ex_bbox =
       Inr (Point (Some (dbl 9007199254740991 (- 42), dbl 4503599627370495 (- 41))))"
    by (simp add: ex_quantize affine_transform_func_def float_eval)
  from quantizer_formula[OF ex_bounds is_finite_dbl is_finite_dbl is_finite_dbl is_finite_dbl lx ly,
      of "Point (Some (dbl 0 0, dbl 0 0))"]
  obtain sx sy where
    "float_div (dbl 4096 0)
          (float_sub (dbl 5378777689100435 (- 28)) (dbl (- 5378777689100435) (- 28))) = Inr sx"
    "float_div (dbl 4096 0)
          (float_sub (dbl 5378777689100435 (- 28)) (dbl (- 2689388844550219) (- 27))) = Inr sy"
    "geometry_to_tile_coords (Point (Some (dbl 0 0, dbl 0 0))) ex_bbox =
           Inr (transform (\<lambda>c. (float_mul (float_sub (fst c) (dbl (- 5378777689100435) (- 28))) sx,
                                float_mul (float_sub (dbl 5378777689100435 (- 28)) (snd c)) sy))
                  (Point (Some (dbl 0 0, dbl 0 0))))"
    by blast
  with ex_bounds lx ly run show ?thesis by blast
qed

lemma ex_bounds_49:
  "bounds (box (dbl 0 0) (dbl 0 0) (dbl 49 0) (dbl 49 0)) = (dbl 0 0, dbl 0 0, dbl 49 0, dbl 49 0)"
  by (simp add: box_def bounds_def float_min_def float_max_def float_eval)

text \<open>
  C2 as stated fails in its last part: in the box from (0, 0) to (49, 49) the point
  (0, 0), which lies at \<open>y = minY\<close>, gets tile-local Y 4095.9999999999995, not 4096.
\<close>

theorem y_at_miny_counterexample:
  "geometry_to_tile_coords (Point (Some (dbl 0 0, dbl 0 0)))
     (box (dbl 0 0) (dbl 0 0) (dbl 49 0) (dbl 49 0)) =
       Inr (Point (Some (dbl 0 0, dbl 9007199254740991 (- 41))))
   \<and> dbl 9007199254740991 (- 41) \<noteq> dbl 4096 0"
  by (simp add: geometry_to_tile_coords_eq[OF ex_bounds_49] and_then_def
        affine_transform_func_def float_eval)

section \<open>The tile box\<close>

lemma float_lt_irrefl: "\<not> float_lt a a"
  by (cases a) simp_all

lemma float_lt_trans: "float_lt a b \<Longrightarrow> float_lt b c \<Longrightarrow> float_lt a c"
  by (cases a; cases b; cases c) simp_all

lemma float_lt_asym: "float_lt a b \<Longrightarrow> \<not> float_lt b a"
  by (cases a; cases b) simp_all

lemma fold_float_min_below:
  assumes "a = x0 \<or> float_lt a x0"
  shows "fold float_min xs a = x0 \<or> float_lt (fold float_min xs a) x0"
  using assms
proof (induction xs arbitrary: a)
  case Nil
  then show ?case by simp
next
  case (Cons x xs)
  have "float_min x a = x0 \<or> float_lt (float_min x a) x0"
    using Cons.prems float_lt_trans[of x a x0] by (auto simp: float_min_def)
  from Cons.IH[OF this] show ?case by simp
qed

lemma fold_float_max_above:
  assumes "a = x0 \<or> float_lt x0 a"
  shows "fold float_max xs a = x0 \<or> float_lt x0 (fold float_max xs a)"
  using assms
proof (induction xs arbitrary: a)
  case Nil
  then show ?case by simp
next
  case (Cons x xs)
  have "float_max x a = x0 \<or> float_lt x0 (float_max x a)"
    using Cons.prems float_lt_trans[of x0 a x] by (auto simp: float_max_def)
  from Cons.IH[OF this] show ?case by simp
qed

lemma fold_float_min_closing: "fold float_min (xs @ [x0]) x0 = fold float_min xs x0"
  using fold_float_min_below[of x0 x0 xs] float_lt_irrefl[of x0]
    float_lt_asym[of "fold float_min xs x0" x0]
  by (auto simp: float_min_def)

lemma fold_float_max_closing: "fold float_max (xs @ [x0]) x0 = fold float_max xs x0"
  using fold_float_max_above[of x0 x0 xs] float_lt_irrefl[of x0]
    float_lt_asym[of x0 "fold float_max xs x0"]
  by (auto simp: float_max_def)

lemma bounds_of_projected_box:
  "bounds (transform T (box l b r t)) =
     spec_extrema (map T [(r, b), (r, t), (l, t), (l, b)])"
proof -
  have e: "envelope_coords (transform T (box l b r t)) =
      T (r, b) # ([T (r, t), T (l, t), T (l, b)] @ [T (r, b)])"
    by (simp add: box_def)
  show ?thesis
    unfolding bounds_def e list.case map_append spec_extrema_def
    using fold_float_min_closing[of "map fst [T (r, t), T (l, t), T (l, b)]" "fst (T (r, b))"]
      fold_float_min_closing[of "map snd [T (r, t), T (l, t), T (l, b)]" "snd (T (r, b))"]
      fold_float_max_closing[of "map fst [T (r, t), T (l, t), T (l, b)]" "fst (T (r, b))"]
      fold_float_max_closing[of "map snd [T (r, t), T (l, t), T (l, b)]" "snd (T (r, b))"]
    by simp
qed

text \<open>
  C1. For every zoom \<open>z \<ge> 0\<close> and all integers \<open>x\<close>, \<open>y\<close>, the bounds of what
  \<^verbatim>\<open>tile_to_bbox\<close> returns are the bounding box of the specification: \<open>n = 2^z\<close>, longitudes
  \<open>x / n * 360 - 180\<close> and \<open>(x + 1) / n * 360 - 180\<close>, latitudes
  \<open>degrees(atan(sinh(pi * (1 - 2 * r / n))))\<close> at \<open>r = y\<close> (top) and \<open>r = y + 1\<close> (bottom),
  and the extrema of the reprojected corners of that rectangle. Both sides are evaluated
  in Python's float arithmetic, and \<^verbatim>\<open>tile_to_bbox\<close> raises exactly where the evaluation
  of the formulas raises.
\<close>

theorem tile_to_bbox_is_slippy_map_box:
  assumes "0 \<le> z"
  shows "and_then (tile_to_bbox L z x y) (\<lambda>bbox_mercator. Inr (bounds bbox_mercator)) =
     spec_compute_bbox L z x y"
proof -
  have lat: "lat_deg_from_tile L n r = spec_lat L n r" for n r
    by (simp add: lat_deg_from_tile_def sinh_arg_def spec_lat_def and_then_def Let_def
        split: sum.splits)
  have lon: "and_then (spec_lon n c) k =
      and_then (float_of_int c) (\<lambda>cf. and_then (float_div cf n) (\<lambda>q.
        k (float_sub (float_mul q (dbl 360 0)) (dbl 180 0))))" for n c
      and k :: "pyfloat \<Rightarrow> error + pyfloat \<times> pyfloat \<times> pyfloat \<times> pyfloat"
    by (simp add: spec_lon_def and_then_def split: sum.splits)
  have assoc: "and_then (and_then m f) g = and_then m (\<lambda>v. and_then (f v) g)"
    for m :: "error + 'a" and f :: "'a \<Rightarrow> error + 'b" and g :: "'b \<Rightarrow> error + 'c"
    by (simp add: and_then_def split: sum.splits)
  have ret: "and_then (Inr v) g = g v" for v :: 'a and g :: "'a \<Rightarrow> error + 'b"
    by (simp add: and_then_def)
  show ?thesis
    unfolding tile_to_bbox_def spec_compute_bbox_def lon lat Let_def assoc ret
      bounds_of_projected_box ..
qed

theorem tile_to_bbox_witness:
  "(0::int) \<le> 0
   \<and> tile_to_bbox ex_libs 0 0 0 = Inr ex_bbox
   \<and> spec_compute_bbox ex_libs 0 0 0 =
       Inr (dbl (- 5378777689100435) (- 28), dbl (- 2689388844550219) (- 27),
            dbl 5378777689100435 (- 28), dbl 5378777689100435 (- 28))"
  using tile_to_bbox_is_slippy_map_box[of 0 ex_libs 0 0] ex_tile_000 ex_bounds
  by (simp add: and_then_def)

section \<open>Conversions that return\<close>

lemma round_mant_le_div:
  "round_mant a q \<le> a div (q * 2 ^ round_shift a q) + 1"
  by (simp add: round_mant_def Let_def)

lemma less_pow_bitlen:
  assumes "0 \<le> x"
  shows "x < 2 ^ nat (bitlen x)"
proof (cases "x = 0")
  case True
  then show ?thesis by simp
next
  case False
  with assms have "0 < x" by simp
  from bitlen_bounds[OF this] show ?thesis by simp
qed



section \<open>Where the tile box exists\<close>









section \<open>Rounding is monotone\<close>

lemma half_even_mono:
  fixes a a' d :: int
  assumes "0 < d" "a \<le> a'"
  shows "(let m = a div d; r = a mod d
          in if 2 * r < d then m else if d < 2 * r then m + 1 else if even m then m else m + 1)
       \<le> (let m = a' div d; r = a' mod d
          in if 2 * r < d then m else if d < 2 * r then m + 1 else if even m then m else m + 1)"
proof -
  have mm: "a div d \<le> a' div d" using assms by (simp add: zdiv_mono1)
  have e: "a = a div d * d + a mod d" "a' = a' div d * d + a' mod d" by simp_all
  have r: "0 \<le> a mod d" "a mod d < d" "0 \<le> a' mod d" "a' mod d < d" using assms(1) by simp_all
  show ?thesis
  proof (cases "a div d = a' div d")
    case True
    then have "a mod d \<le> a' mod d" using e assms(2) by (metis add_le_cancel_left)
    then show ?thesis using True by (auto simp: Let_def)
  next
    case False
    with mm have "a div d + 1 \<le> a' div d" by simp
    then show ?thesis by (auto simp: Let_def)
  qed
qed

lemma round_mant_mono_same_shift:
  assumes "0 < q" "a \<le> a'" "round_shift a q = round_shift a' q"
  shows "round_mant a q \<le> round_mant a' q"
proof -
  have "0 < q * 2 ^ round_shift a' q" using assms(1) by simp
  from half_even_mono[OF this assms(2)] show ?thesis
    unfolding round_mant_def assms(3) Let_def .
qed

lemma bitlen_mono:
  assumes "0 \<le> x" "x \<le> y"
  shows "bitlen x \<le> bitlen y"
proof -
  have "y < 2 ^ nat (bitlen y)" using assms by (intro less_pow_bitlen) simp
  with assms(2) have "x < 2 ^ nat (bitlen y)" by simp
  then show ?thesis using bitlen_nonneg[of y] by (simp add: bitlen_le_iff_power)
qed

lemma round_mant_upper:
  assumes "0 < q" "0 \<le> a" "53 \<le> bitlen (a div q)"
  shows "round_mant a q \<le> 2 ^ 53"
proof -
  define s where "s = round_shift a q"
  have a0: "0 \<le> a div q" using assms by (simp add: pos_imp_zdiv_nonneg_iff)
  have n: "nat (bitlen (a div q)) = 53 + s" using assms(3) by (simp add: s_def round_shift_def)
  have "a div q < 2 ^ nat (bitlen (a div q))" by (rule less_pow_bitlen[OF a0])
  then have "a div q < 2 ^ 53 * 2 ^ s" by (simp add: n power_add)
  then have "(a div q) div 2 ^ s < 2 ^ 53" by (simp add: div_lt_iff)
  moreover have "a div (q * 2 ^ s) = (a div q) div 2 ^ s" by (rule zdiv_zmult2_eq) simp
  ultimately show ?thesis using round_mant_le_div[of a q] by (simp add: s_def)
qed

lemma round_value_upper:
  assumes "0 < q" "0 \<le> a"
  shows "round_value a q \<le> 2 ^ nat (bitlen (a div q))"
proof (cases "53 \<le> bitlen (a div q)")
  case True
  have n: "nat (bitlen (a div q)) = 53 + round_shift a q" using True by (simp add: round_shift_def)
  have "round_value a q \<le> 2 ^ 53 * 2 ^ round_shift a q"
    unfolding round_value_def using round_mant_upper[OF assms True] by simp
  then show ?thesis by (simp add: n power_add)
next
  case False
  then have s: "round_shift a q = 0" by (simp add: round_shift_def)
  have a0: "0 \<le> a div q" using assms by (simp add: pos_imp_zdiv_nonneg_iff)
  have "round_value a q \<le> a div q + 1"
    using round_mant_le_div[of a q] by (simp add: round_value_def s)
  also have "\<dots> \<le> 2 ^ nat (bitlen (a div q))" using less_pow_bitlen[OF a0] by simp
  finally show ?thesis .
qed

lemma round_value_lower:
  assumes "0 < q" "1 \<le> bitlen (a div q)"
  shows "2 ^ nat (bitlen (a div q) - 1) \<le> round_value a q"
proof (cases "53 \<le> bitlen (a div q)")
  case True
  have n: "nat (bitlen (a div q) - 1) = 52 + round_shift a q" using True by (simp add: round_shift_def)
  have "2 ^ 52 * 2 ^ round_shift a q \<le> round_value a q"
    unfolding round_value_def using round_mant_lower[OF assms(1) True] by simp
  then show ?thesis by (simp add: n power_add)
next
  case False
  then have s: "round_shift a q = 0" by (simp add: round_shift_def)
  have pos: "0 < a div q" using assms(2) bitlen_eq_zero_iff[of "a div q"] by linarith
  from bitlen_bounds[OF pos] have "2 ^ nat (bitlen (a div q) - 1) \<le> a div q" by simp
  also have "\<dots> \<le> round_value a q"
    using round_mant_ge_div[of a q] by (simp add: round_value_def s)
  finally show ?thesis .
qed

lemma round_value_mono:
  assumes "0 < q" "0 \<le> a" "a \<le> a'"
  shows "round_value a q \<le> round_value a' q"
proof -
  have d: "a div q \<le> a' div q" using assms by (simp add: zdiv_mono1)
  have a0: "0 \<le> a div q" using assms by (simp add: pos_imp_zdiv_nonneg_iff)
  have nn: "bitlen (a div q) \<le> bitlen (a' div q)" by (rule bitlen_mono[OF a0 d])
  show ?thesis
  proof (cases "bitlen (a div q) = bitlen (a' div q)")
    case True
    then have s: "round_shift a q = round_shift a' q" by (simp add: round_shift_def)
    from round_mant_mono_same_shift[OF assms(1,3) s] show ?thesis
      by (simp add: round_value_def s)
  next
    case False
    with nn have lt: "bitlen (a div q) < bitlen (a' div q)" by simp
    then have one: "1 \<le> bitlen (a' div q)" using bitlen_nonneg[of "a div q"] by linarith
    have "round_value a q \<le> 2 ^ nat (bitlen (a div q))" by (rule round_value_upper[OF assms(1,2)])
    also have "\<dots> \<le> 2 ^ nat (bitlen (a' div q) - 1)"
    proof -
      have "nat (bitlen (a div q)) \<le> nat (bitlen (a' div q) - 1)" using lt by linarith
      then show ?thesis by (simp only: power_increasing_iff one_less_numeral_iff semiring_norm)
    qed
    also have "\<dots> \<le> round_value a' q" by (rule round_value_lower[OF assms(1) one])
    finally show ?thesis .
  qed
qed

section \<open>The rounding error\<close>

lemma round_ratio_nonneg:
  assumes "0 \<le> p"
  shows "round_ratio p q =
     (if 2 ^ 2098 \<le> round_value p q then (if 0 < p then PInf else NInf)
      else Fin (round_value p q))"
  using assms by (simp add: round_ratio_alt round_value_def Let_def)

lemma round_value_nonneg:
  assumes "0 < q" "0 \<le> a"
  shows "0 \<le> round_value a q"
proof -
  have "0 \<le> a div (q * 2 ^ round_shift a q)"
    using assms by (simp add: pos_imp_zdiv_nonneg_iff)
  with round_mant_ge_div[of a q] have "0 \<le> round_mant a q" by linarith
  then show ?thesis by (simp add: round_value_def)
qed

lemma div_shift_lower:
  assumes "0 < q" "53 \<le> bitlen (a div q)"
  shows "2 ^ 52 \<le> a div (q * 2 ^ round_shift a q)"
proof -
  let ?n = "bitlen (a div q)"
  let ?s = "round_shift a q"
  have pos: "0 < a div q" using assms(2) bitlen_eq_zero_iff[of "a div q"] by linarith
  from bitlen_bounds[OF pos] have "2 ^ nat (?n - 1) \<le> a div q" by simp
  then have "2 ^ nat (?n - 1) * q \<le> a" by (simp add: div_ge_iff[OF assms(1)])
  moreover have "nat (?n - 1) = 52 + ?s" using assms(2) by (simp add: round_shift_def)
  ultimately have "2 ^ 52 * (q * 2 ^ ?s) \<le> a" by (simp add: power_add mult.assoc mult.left_commute mult.commute)
  moreover have "0 < q * 2 ^ ?s" using assms(1) by simp
  ultimately show ?thesis by (simp only: div_ge_iff)
qed

lemma round_value_error:
  assumes "0 < q" "0 \<le> a" "53 \<le> bitlen (a div q)"
  shows "round_value a q * q * 2 ^ 53 \<le> a * (2 ^ 53 + 1)"
proof -
  define d where "d = q * 2 ^ round_shift a q"
  define m where "m = a div d"
  define r where "r = a mod d"
  define X where "X = m * d"
  have dpos: "0 < d" using assms(1) by (simp add: d_def)
  have a: "a = X + r" by (simp add: X_def m_def r_def)
  have r0: "0 \<le> r" and rd: "r < d" using dpos by (simp_all add: r_def)
  have m52: "2 ^ 52 \<le> m" using div_shift_lower[OF assms(1,3)] by (simp add: m_def d_def)
  then have X52: "2 ^ 52 * d \<le> X" unfolding X_def using dpos by (simp add: mult_right_mono)
  have v: "round_value a q * q = round_mant a q * d"
    by (simp add: round_value_def d_def mult.assoc mult.commute mult.left_commute)
  have rm: "round_mant a q = m \<or> (round_mant a q = m + 1 \<and> d \<le> 2 * r)"
    by (auto simp: round_mant_def Let_def d_def m_def r_def)
  have main: "round_mant a q * d * 2 ^ 53 \<le> (X + r) * (2 ^ 53 + 1)"
  proof (cases "round_mant a q = m")
    case True
    have "0 \<le> X" using X52 dpos by (smt (verit) mult_nonneg_nonneg zero_le_power)
    moreover have "round_mant a q * d = X" using True by (simp add: X_def)
    ultimately show ?thesis using r0 by simp
  next
    case False
    with rm have e: "round_mant a q = m + 1" and h: "d \<le> 2 * r" by simp_all
    have "(m + 1) * d = X + d" by (simp add: X_def algebra_simps)
    then show ?thesis using X52 h r0 unfolding e by simp
  qed
  have "round_value a q * q * 2 ^ 53 = round_mant a q * d * 2 ^ 53" by (simp only: v)
  also have "\<dots> \<le> (X + r) * (2 ^ 53 + 1)" by (rule main)
  also have "X + r = a" by (simp only: a)
  finally show ?thesis .
qed

section \<open>Quantized coordinates stay in range\<close>

lemma round_ratio_Fin_nonneg:
  assumes "0 \<le> p" "round_ratio p q = Fin k"
  shows "k = round_value p q \<and> round_value p q < 2 ^ 2098"
  using assms by (auto simp: round_ratio_nonneg split: if_splits)

lemma tie_rounds_to_extent:
  "round_ratio (2 ^ 1074 * (2 ^ 1086 + 2 ^ 1033)) (2 ^ 1074) = Fin (4096 * 2 ^ 1074)"
proof -
  have a: "round_q (2 ^ 53 + 1) 1 (- 41) = dbl 4503599627370496 (- 40)"
    by (simp add: float_eval)
  have b: "round_q (2 ^ 53 + 1) 1 (- 41) = round_ratio (2 ^ 1086 + 2 ^ 1033) 1"
    by (simp add: round_q_def)
  have c: "dbl 4503599627370496 (- 40) = Fin (4096 * 2 ^ 1074)"
    by (simp add: dbl_def)
  have "round_ratio (2 ^ 1074 * (2 ^ 1086 + 2 ^ 1033)) (2 ^ 1074 * 1) = round_ratio (2 ^ 1086 + 2 ^ 1033) 1"
    by (rule round_ratio_cancel) simp_all
  then show ?thesis using a b c by simp
qed

lemma scaled_in_range:
  assumes "0 \<le> A" "A \<le> D" "0 < D" "D < 2 ^ 2098"
    and "round_ratio (4096 * 2 ^ 1074 * 2 ^ 1074) D = Fin S"
  shows "\<exists>T. round_ratio (A * S) (2 ^ 1074) = Fin T \<and> 0 \<le> T \<and> T \<le> 4096 * 2 ^ 1074"
proof -
  define U :: int where "U = 2 ^ 1074"
  define EU :: int where "EU = 4096 * 2 ^ 1074 * 2 ^ 1074"
  define P0 :: int where "P0 = 2 ^ 1086 + 2 ^ 1033"
  have U: "0 < U" by (simp add: U_def)
  have EU0: "0 \<le> EU" by (simp add: EU_def)
  from round_ratio_Fin_nonneg[OF EU0 assms(5)[folded EU_def]]
  have S: "S = round_value EU D" by simp
  have S0: "0 \<le> S" unfolding S by (rule round_value_nonneg[OF assms(3) EU0])
  have "2 ^ 62 * D \<le> 2 ^ 62 * 2 ^ 2098" using assms(4) by simp
  also have "\<dots> = EU" by (simp add: EU_def)
  finally have "2 ^ 62 \<le> EU div D" by (simp only: div_ge_iff[OF assms(3)])
  moreover from this have "0 < EU div D" by (smt (verit) zero_less_power)
  ultimately have bl: "53 \<le> bitlen (EU div D)"
    using pow_le_iff_bitlen[of "EU div D" 62] by simp
  from round_value_error[OF assms(3) EU0 bl]
  have err: "S * D * 2 ^ 53 \<le> EU * (2 ^ 53 + 1)" by (simp only: S)
  have "A * S \<le> D * S" using assms(2) S0 by (rule mult_right_mono)
  then have "A * S * 2 ^ 53 \<le> S * D * 2 ^ 53" by (simp add: mult.commute)
  also note err
  also have "EU * (2 ^ 53 + 1) = U * P0 * 2 ^ 53" by (simp add: EU_def U_def P0_def)
  finally have le: "A * S \<le> U * P0" by simp
  have AS0: "0 \<le> A * S" using assms(1) S0 by simp
  have top: "round_value (U * P0) U = 4096 * 2 ^ 1074"
  proof -
    have "0 \<le> U * P0" by (simp add: U_def P0_def)
    from round_ratio_Fin_nonneg[OF this, of U "4096 * 2 ^ 1074"] tie_rounds_to_extent
    show ?thesis by (simp add: U_def P0_def)
  qed
  have "round_value (A * S) U \<le> round_value (U * P0) U"
    by (rule round_value_mono[OF U AS0 le])
  then have T: "round_value (A * S) U \<le> 4096 * 2 ^ 1074" by (simp only: top)
  then have "round_value (A * S) U < 2 ^ 2098" by simp
  then have "round_ratio (A * S) U = Fin (round_value (A * S) U)"
    by (simp add: round_ratio_nonneg[OF AS0])
  moreover have "0 \<le> round_value (A * S) U" by (rule round_value_nonneg[OF U AS0])
  ultimately show ?thesis using T unfolding U_def by blast
qed

lemma float_le_between:
  assumes "float_le (Fin a) v" "float_le v (Fin b)"
  shows "\<exists>x. v = Fin x \<and> a \<le> x \<and> x \<le> b"
  using assms by (cases v) (auto simp: float_le_def)

lemma quantized_coordinate_in_range:
  assumes "is_finite lo" and "is_finite hi" and "float_lt lo hi"
    and "float_le lo v" and "float_le v hi"
    and "is_finite (float_sub hi lo)"
    and "float_div (dbl 4096 0) (float_sub hi lo) = Inr s" and "is_finite s"
  shows "float_le (dbl 0 0) (float_mul (float_sub v lo) s)
       \<and> float_le (float_mul (float_sub v lo) s) (dbl 4096 0)
       \<and> float_le (dbl 0 0) (float_mul (float_sub hi v) s)
       \<and> float_le (float_mul (float_sub hi v) s) (dbl 4096 0)"
proof -
  from assms(1,2) obtain a b where ab: "lo = Fin a" "hi = Fin b" using is_finite_Fin by blast
  from assms(3) ab have lt: "a < b" by simp
  from float_le_between[of a v b] assms(4,5) ab obtain x where x: "v = Fin x" "a \<le> x" "x \<le> b"
    by blast
  from assms(6) ab obtain D where D: "round_ratio (b - a) 1 = Fin D"
    using is_finite_Fin by fastforce
  have ba: "0 \<le> b - a" using lt by simp
  from round_ratio_Fin_nonneg[OF ba D] have Dv: "D = round_value (b - a) 1" and Dlt: "D < 2 ^ 2098"
    by simp_all
  have D0: "0 \<le> D" unfolding Dv by (rule round_value_nonneg) (use ba in simp_all)
  have "D \<noteq> 0" using round_ratio_pos_nonzero[of "b - a"] lt D by auto
  with D0 have Dpos: "0 < D" by simp
  from assms(8) obtain S where S: "s = Fin S" using is_finite_Fin by blast
  have div: "round_ratio (4096 * 2 ^ 1074 * 2 ^ 1074) D = Fin S"
    using assms(7) Dpos unfolding ab S float_sub.simps D dbl_def by simp
  have sub: "\<exists>A. round_ratio w 1 = Fin A \<and> 0 \<le> A \<and> A \<le> D" if w: "0 \<le> w" "w \<le> b - a" for w
  proof -
    have le: "round_value w 1 \<le> D" unfolding Dv by (rule round_value_mono) (use w in simp_all)
    then have "round_value w 1 < 2 ^ 2098" using Dlt by simp
    then have "round_ratio w 1 = Fin (round_value w 1)" by (simp add: round_ratio_nonneg[OF w(1)])
    moreover have "0 \<le> round_value w 1" by (rule round_value_nonneg) (use w in simp_all)
    ultimately show ?thesis using le by blast
  qed
  have rng: "float_le (dbl 0 0) (float_mul (Fin A) s) \<and> float_le (float_mul (Fin A) s) (dbl 4096 0)"
    if A: "0 \<le> A" "A \<le> D" for A
  proof -
    from scaled_in_range[OF A Dpos Dlt div] obtain T
      where T: "round_ratio (A * S) (2 ^ 1074) = Fin T" "0 \<le> T" "T \<le> 4096 * 2 ^ 1074" by blast
    then show ?thesis unfolding S float_mul.simps by (simp add: float_le_def dbl_def)
  qed
  from sub[of "x - a"] x obtain A1 where A1: "round_ratio (x - a) 1 = Fin A1" "0 \<le> A1" "A1 \<le> D"
    by auto
  from sub[of "b - x"] x obtain A2 where A2: "round_ratio (b - x) 1 = Fin A2" "0 \<le> A2" "A2 \<le> D"
    by auto
  from rng[OF A1(2,3)] rng[OF A2(2,3)] show ?thesis
    unfolding ab x float_sub.simps A1(1) A2(1) by simp
qed

section \<open>Containment in the tile extent\<close>

lemma float_mul_dbl_PInf: "float_mul (dbl m e) PInf = signed_inf (sgn m)"
  by (simp add: dbl_def sgn_mult)

text \<open>
  C4, as the code has it. For a box with finite bounds, \<open>minX < maxX\<close> and \<open>minY < maxY\<close>,
  whose extents \<open>maxX - minX\<close> and \<open>maxY - minY\<close> and whose two scale factors are finite (none
  of the four overflows), and a geometry all of whose coordinates lie in the closed box,
  the quantizer returns a geometry all of whose coordinates lie in \<open>[0, 4096]\<close> in both
  axes.
\<close>

theorem quantized_coordinates_in_extent:
  assumes "bounds bbox = (minx, miny, maxx, maxy)"
    and "is_finite minx" and "is_finite miny" and "is_finite maxx" and "is_finite maxy"
    and "float_lt minx maxx" and "float_lt miny maxy"
    and "is_finite (float_sub maxx minx)" and "is_finite (float_sub maxy miny)"
    and "float_div (dbl 4096 0) (float_sub maxx minx) = Inr scale_x" and "is_finite scale_x"
    and "float_div (dbl 4096 0) (float_sub maxy miny) = Inr scale_y" and "is_finite scale_y"
    and "\<forall>c\<in>set (coords_of geom). float_le minx (fst c) \<and> float_le (fst c) maxx
            \<and> float_le miny (snd c) \<and> float_le (snd c) maxy"
  shows "\<exists>tile_geom. geometry_to_tile_coords geom bbox = Inr tile_geom
     \<and> (\<forall>c\<in>set (coords_of tile_geom).
           float_le (dbl 0 0) (fst c) \<and> float_le (fst c) (dbl 4096 0)
         \<and> float_le (dbl 0 0) (snd c) \<and> float_le (snd c) (dbl 4096 0))"
proof -
  let ?f = "affine_transform_func minx maxy scale_x scale_y"
  have g: "geometry_to_tile_coords geom bbox = Inr (transform ?f geom)"
    by (simp add: geometry_to_tile_coords_eq[OF assms(1)] assms(10,12) and_then_def)
  have "float_le (dbl 0 0) (fst (?f c)) \<and> float_le (fst (?f c)) (dbl 4096 0)
      \<and> float_le (dbl 0 0) (snd (?f c)) \<and> float_le (snd (?f c)) (dbl 4096 0)"
    if c: "c \<in> set (coords_of geom)" for c
  proof -
    from assms(14) c have in_box: "float_le minx (fst c)" "float_le (fst c) maxx"
      "float_le miny (snd c)" "float_le (snd c) maxy" by auto
    from quantized_coordinate_in_range[OF assms(2,4,6) in_box(1,2) assms(8,10,11)]
      quantized_coordinate_in_range[OF assms(3,5,7) in_box(3,4) assms(9,12,13)]
    show ?thesis by (simp add: affine_transform_func_def)
  qed
  then have "\<forall>c\<in>set (coords_of (transform ?f geom)).
      float_le (dbl 0 0) (fst c) \<and> float_le (fst c) (dbl 4096 0)
      \<and> float_le (dbl 0 0) (snd c) \<and> float_le (snd c) (dbl 4096 0)"
    unfolding transform_coords by auto
  with g show ?thesis by blast
qed

theorem quantized_coordinates_witness:
  "bounds ex_bbox = (dbl (- 5378777689100435) (- 28), dbl (- 2689388844550219) (- 27),
                     dbl 5378777689100435 (- 28), dbl 5378777689100435 (- 28))
   \<and> float_lt (dbl (- 5378777689100435) (- 28)) (dbl 5378777689100435 (- 28))
   \<and> float_lt (dbl (- 2689388844550219) (- 27)) (dbl 5378777689100435 (- 28))
   \<and> float_div (dbl 4096 0)
        (float_sub (dbl 5378777689100435 (- 28)) (dbl (- 5378777689100435) (- 28)))
       = Inr (dbl 7541642646712089 (- 66))
   \<and> float_div (dbl 4096 0)
        (float_sub (dbl 5378777689100435 (- 28)) (dbl (- 2689388844550219) (- 27)))
       = Inr (dbl 7541642646712088 (- 66))
   \<and> float_le (dbl (- 5378777689100435) (- 28)) (dbl 0 0)
   \<and> float_le (dbl 0 0) (dbl 5378777689100435 (- 28))
   \<and> float_le (dbl (- 2689388844550219) (- 27)) (dbl 0 0)
   \<and> (\<exists>tile_geom. geometry_to_tile_coords (Point (Some (dbl 0 0, dbl 0 0))) ex_bbox = Inr tile_geom
        \<and> (\<forall>c\<in>set (coords_of tile_geom).
              float_le (dbl 0 0) (fst c) \<and> float_le (fst c) (dbl 4096 0)
            \<and> float_le (dbl 0 0) (snd c) \<and> float_le (snd c) (dbl 4096 0)))"
proof -
  have lx: "float_lt (dbl (- 5378777689100435) (- 28)) (dbl 5378777689100435 (- 28))"
    by (simp add: float_eval)
  have ly: "float_lt (dbl (- 2689388844550219) (- 27)) (dbl 5378777689100435 (- 28))"
    by (simp add: float_eval)
  have dx: "float_sub (dbl 5378777689100435 (- 28)) (dbl (- 5378777689100435) (- 28))
      = dbl 5378777689100435 (- 27)"
    by (simp add: float_eval)
  have dy: "float_sub (dbl 5378777689100435 (- 28)) (dbl (- 2689388844550219) (- 27))
      = dbl 5378777689100436 (- 27)"
    by (simp add: float_eval)
  have sx: "float_div (dbl 4096 0) (float_sub (dbl 5378777689100435 (- 28)) (dbl (- 5378777689100435) (- 28)))
      = Inr (dbl 7541642646712089 (- 66))"
    unfolding dx by (simp add: float_eval)
  have sy: "float_div (dbl 4096 0) (float_sub (dbl 5378777689100435 (- 28)) (dbl (- 2689388844550219) (- 27)))
      = Inr (dbl 7541642646712088 (- 66))"
    unfolding dy by (simp add: float_eval)
  have fx: "is_finite (float_sub (dbl 5378777689100435 (- 28)) (dbl (- 5378777689100435) (- 28)))"
    unfolding dx by (rule is_finite_dbl)
  have fy: "is_finite (float_sub (dbl 5378777689100435 (- 28)) (dbl (- 2689388844550219) (- 27)))"
    unfolding dy by (rule is_finite_dbl)
  have c1: "float_le (dbl (- 5378777689100435) (- 28)) (dbl 0 0)"
    and c2: "float_le (dbl 0 0) (dbl 5378777689100435 (- 28))"
    and c3: "float_le (dbl (- 2689388844550219) (- 27)) (dbl 0 0)"
    by (simp_all add: float_le_def float_eval)
  have inside: "\<forall>c\<in>set (coords_of (Point (Some (dbl 0 0, dbl 0 0)))).
      float_le (dbl (- 5378777689100435) (- 28)) (fst c) \<and> float_le (fst c) (dbl 5378777689100435 (- 28))
      \<and> float_le (dbl (- 2689388844550219) (- 27)) (snd c) \<and> float_le (snd c) (dbl 5378777689100435 (- 28))"
    using c1 c2 c3 by simp
  from quantized_coordinates_in_extent[OF ex_bounds is_finite_dbl is_finite_dbl is_finite_dbl
      is_finite_dbl lx ly fx fy sx is_finite_dbl sy is_finite_dbl inside]
    ex_bounds lx ly sx sy c1 c2 c3
  show ?thesis by blast
qed

lemma ex_bounds_tiny:
  "bounds (box (dbl 0 0) (dbl 0 0) (dbl 1 (- 1074)) (dbl 1 (- 1074))) =
     (dbl 0 0, dbl 0 0, dbl 1 (- 1074), dbl 1 (- 1074))"
  by (simp add: box_def bounds_def float_min_def float_max_def float_eval)

text \<open>
  C4 as stated fails: in the box from (0, 0) to (5e-324, 5e-324) both scale factors
  overflow to infinity, and the point (0, 0), a corner of the box, is quantized to
  (NaN, inf), which is not in \<open>[0, 4096]\<close>.
\<close>

theorem quantized_coordinates_counterexample:
  "geometry_to_tile_coords (Point (Some (dbl 0 0, dbl 0 0)))
     (box (dbl 0 0) (dbl 0 0) (dbl 1 (- 1074)) (dbl 1 (- 1074))) =
       Inr (Point (Some (NaN, PInf)))
   \<and> \<not> float_le (dbl 0 0) NaN \<and> \<not> float_le PInf (dbl 4096 0)"
proof -
  have "geometry_to_tile_coords (Point (Some (dbl 0 0, dbl 0 0)))
     (box (dbl 0 0) (dbl 0 0) (dbl 1 (- 1074)) (dbl 1 (- 1074))) =
       Inr (Point (Some (NaN, PInf)))"
    by (simp add: geometry_to_tile_coords_eq[OF ex_bounds_tiny] and_then_def
        affine_transform_func_def float_eval float_mul_dbl_PInf signed_inf_def)
  moreover have "\<not> float_le (dbl 0 0) NaN \<and> \<not> float_le PInf (dbl 4096 0)"
    by (simp add: float_le_def dbl_def)
  ultimately show ?thesis by blast
qed

end
